theory Spec2Isabelle
  imports Complex_Main
begin

section \<open>JavaScript values and errors\<close>

text \<open>
  The rule conditions of CyberGuardLog are stored as JSON text and read back with
  \<^verbatim>\<open>JSON.parse\<close>, and the answer of the remote scorer is parsed in the same way, so the
  code works on whatever JSON value the text holds. A number is kept with the text that
  \<^verbatim>\<open>String\<close> gives for it; \<^verbatim>\<open>JSON.parse\<close> gives no \<^verbatim>\<open>NaN\<close>, but arithmetic on
  parsed values can. The keys of an object are taken to be distinct.
\<close>

datatype js_number = NaN | NegInfinity | Finite real | PosInfinity

datatype jvalue =
    JNull
  | JBool bool
  | JNum js_number string
  | JStr string
  | JArr "jvalue list"
  | JObj "(string \<times> jvalue) list"

datatype js_error = TypeError | SyntaxError | DbError

text \<open>Reading a property: a missing property is \<^verbatim>\<open>undefined\<close> (here \<open>None\<close>), and
  \<^verbatim>\<open>null.k\<close> raises. Only the keys \<^verbatim>\<open>type\<close>, \<^verbatim>\<open>operator\<close> and \<^verbatim>\<open>value\<close> are
  read, which no string, number, boolean or array has.\<close>

definition property :: "jvalue \<Rightarrow> string \<Rightarrow> jvalue option" where
  "property v k = (case v of JObj fs \<Rightarrow> map_of fs k | _ \<Rightarrow> None)"

definition get_prop :: "jvalue \<Rightarrow> string \<Rightarrow> js_error + jvalue option" where
  "get_prop v k = (if v = JNull then Inl TypeError else Inr (property v k))"

fun join_comma :: "string list \<Rightarrow> string" where
  "join_comma [] = []"
| "join_comma [s] = s"
| "join_comma (s # t # ss) = s @ '','' @ join_comma (t # ss)"

text \<open>The results of a list of steps of which each can raise: the first error, or all
  the values.\<close>

fun first_error :: "(js_error + 'a) list \<Rightarrow> js_error + 'a list" where
  "first_error [] = Inr []"
| "first_error (x # xs) =
     (case x of
        Inl e \<Rightarrow> Inl e
      | Inr v \<Rightarrow> (case first_error xs of Inl e \<Rightarrow> Inl e | Inr vs \<Rightarrow> Inr (v # vs)))"

text \<open>
  \<^verbatim>\<open>String(v)\<close>. An array is the comma-joined text of its elements, with \<^verbatim>\<open>null\<close>
  elements empty. An object parsed from JSON has no callable property of its own, so one
  with a key \<^verbatim>\<open>toString\<close> of its own hides the inherited method and the conversion
  raises; any other object gives \<^verbatim>\<open>[object Object]\<close>.
\<close>

fun js_String :: "jvalue \<Rightarrow> js_error + string" where
  "js_String JNull = Inr ''null''"
| "js_String (JBool b) = Inr (if b then ''true'' else ''false'')"
| "js_String (JNum n t) = Inr t"
| "js_String (JStr s) = Inr s"
| "js_String (JArr xs) =
     (case first_error (map (\<lambda>x. if x = JNull then Inr [] else js_String x) xs) of
        Inl e \<Rightarrow> Inl e
      | Inr ss \<Rightarrow> Inr (join_comma ss))"
| "js_String (JObj fs) =
     (if ''toString'' \<in> fst ` set fs then Inl TypeError else Inr ''[object Object]'')"

definition String_of :: "jvalue option \<Rightarrow> js_error + string" where
  "String_of v = (case v of None \<Rightarrow> Inr ''undefined'' | Some x \<Rightarrow> js_String x)"

fun starts_with :: "string \<Rightarrow> string \<Rightarrow> bool" where
  "starts_with s [] = True"
| "starts_with [] (c # t) = False"
| "starts_with (d # s) (c # t) = (d = c \<and> starts_with s t)"

text \<open>\<^verbatim>\<open>s.includes(t)\<close>: \<open>t\<close> occurs in \<open>s\<close> as a contiguous run.\<close>

fun str_includes :: "string \<Rightarrow> string \<Rightarrow> bool" where
  "str_includes [] t = starts_with [] t"
| "str_includes (c # s) t = (starts_with (c # s) t \<or> str_includes s t)"

section \<open>The condition evaluator\<close>

record RuleEvaluationContext =
  ip :: "string option"
  eventType :: string
  severity :: string
  message :: string
  source :: string

text \<open>The inner \<^verbatim>\<open>getValue\<close> of \<^verbatim>\<open>evaluateCondition\<close>, given \<^verbatim>\<open>cond.type\<close>.\<close>

definition getValue :: "jvalue option \<Rightarrow> RuleEvaluationContext \<Rightarrow> string option" where
  "getValue t context =
     (if t = Some (JStr ''ip'') then ip context
      else if t = Some (JStr ''eventType'') then Some (eventType context)
      else if t = Some (JStr ''severity'') then Some (severity context)
      else if t = Some (JStr ''pattern'') then Some (message context)
      else if t = Some (JStr ''source'') then Some (source context)
      else None)"

text \<open>
  \<^verbatim>\<open>evaluateCondition\<close>. The regular expressions of the \<^verbatim>\<open>matches\<close> operator are
  those of the host: \<open>re p s\<close> is \<open>None\<close> when \<^verbatim>\<open>new RegExp(p, "i")\<close> raises, and
  otherwise what \<^verbatim>\<open>test(s)\<close> answers. A value that is \<^verbatim>\<open>undefined\<close> or the empty
  string is falsy, and the evaluator answers false for it before it looks at the operator.
  An exception of \<^verbatim>\<open>String(cond.value)\<close> leaves the evaluator for \<^verbatim>\<open>contains\<close> and is
  caught, with the answer false, inside the \<^verbatim>\<open>try\<close> of \<^verbatim>\<open>matches\<close>.
\<close>

definition evaluateCondition ::
  "(string \<Rightarrow> string \<Rightarrow> bool option) \<Rightarrow> jvalue \<Rightarrow> RuleEvaluationContext \<Rightarrow> js_error + bool" where
  "evaluateCondition re cond context =
     (case get_prop cond ''type'' of
        Inl e \<Rightarrow> Inl e
      | Inr t \<Rightarrow>
          (case getValue t context of
             None \<Rightarrow> Inr False
           | Some v \<Rightarrow>
               if v = [] then Inr False
               else
                 (case (get_prop cond ''operator'', get_prop cond ''value'') of
                    (Inr operator, Inr cv) \<Rightarrow>
                      if operator = Some (JStr ''equals'') then Inr (cv = Some (JStr v))
                      else if operator = Some (JStr ''contains'') then
                        (case String_of cv of Inl e \<Rightarrow> Inl e | Inr t \<Rightarrow> Inr (str_includes v t))
                      else if operator = Some (JStr ''matches'') then
                        (case String_of cv of
                           Inl e \<Rightarrow> Inr False
                         | Inr p \<Rightarrow> (case re p v of None \<Rightarrow> Inr False | Some b \<Rightarrow> Inr b))
                      else if operator = Some (JStr ''in'') then
                        (case cv of Some (JArr xs) \<Rightarrow> Inr (JStr v \<in> set xs) | _ \<Rightarrow> Inr False)
                      else Inr False
                  | (Inl e, _) \<Rightarrow> Inl e
                  | (_, Inl e) \<Rightarrow> Inl e)))"

text \<open>The field selectors and the operators of the type \<^verbatim>\<open>RuleCondition\<close>, and what
  it is for a property of a condition to be one of them.\<close>

definition field_selectors :: "string list" where
  "field_selectors = [''ip'', ''eventType'', ''severity'', ''pattern'', ''source'']"

definition operators :: "string list" where
  "operators = [''equals'', ''contains'', ''matches'', ''in'']"

definition recognized :: "string list \<Rightarrow> jvalue option \<Rightarrow> bool" where
  "recognized names v = (case v of Some (JStr s) \<Rightarrow> s \<in> set names | _ \<Rightarrow> False)"

section \<open>The store\<close>

text \<open>
  The tables of \<^verbatim>\<open>shared/schema.ts\<close> that the pipeline touches. The database assigns
  the ids; the row timestamps play no part below and are left out. The stored condition
  text of a rule is kept as what \<^verbatim>\<open>JSON.parse\<close> makes of it: \<open>None\<close> when it
  raises. Any query can fail: \<open>failing\<close> lists the kinds of query that the database
  rejects at the moment.
\<close>

record Log =
  log_id :: nat
  log_level :: string
  log_source :: string
  log_ipAddress :: "string option"
  log_eventType :: string
  log_message :: string
  log_metadata :: "string option"

record InsertLog =
  new_level :: string
  new_source :: string
  new_ipAddress :: "string option"
  new_eventType :: string
  new_message :: string
  new_metadata :: "string option"

datatype alert_status = Active | Acknowledged | Resolved

record Alert =
  alert_id :: nat
  alert_severity :: string
  alert_title :: string
  alert_description :: string
  alert_source :: string
  alert_ipAddress :: "string option"
  alert_status :: alert_status
  acknowledgedAt :: "nat option"
  resolvedAt :: "nat option"

record InsertAlert =
  ins_severity :: string
  ins_title :: string
  ins_description :: string
  ins_source :: string
  ins_ipAddress :: "string option"
  ins_status :: "alert_status option"

record AlertingRule =
  rule_id :: nat
  rule_name :: string
  rule_description :: "string option"
  rule_condition :: "jvalue option"
  rule_severity :: string
  rule_enabled :: bool

datatype db_op = InsertLogs | InsertAlerts | UpdateAlerts | SelectRules

record database =
  logs :: "Log list"
  alerts :: "Alert list"
  alertingRules :: "AlertingRule list"
  next_id :: nat
  failing :: "db_op list"

definition insert_log :: "InsertLog \<Rightarrow> database \<Rightarrow> js_error + (Log \<times> database)" where
  "insert_log insertLog d =
     (if InsertLogs \<in> set (failing d) then Inl DbError
      else
        let lg = \<lparr>log_id = next_id d, log_level = new_level insertLog,
                   log_source = new_source insertLog, log_ipAddress = new_ipAddress insertLog,
                   log_eventType = new_eventType insertLog, log_message = new_message insertLog,
                   log_metadata = new_metadata insertLog\<rparr>
        in Inr (lg, d\<lparr>logs := logs d @ [lg], next_id := Suc (next_id d)\<rparr>))"

definition createAlert :: "InsertAlert \<Rightarrow> database \<Rightarrow> js_error + (Alert \<times> database)" where
  "createAlert insertAlert d =
     (if InsertAlerts \<in> set (failing d) then Inl DbError
      else
        let alert = \<lparr>alert_id = next_id d, alert_severity = ins_severity insertAlert,
                     alert_title = ins_title insertAlert,
                     alert_description = ins_description insertAlert,
                     alert_source = ins_source insertAlert,
                     alert_ipAddress = ins_ipAddress insertAlert,
                     alert_status = (case ins_status insertAlert of None \<Rightarrow> Active | Some s \<Rightarrow> s),
                     acknowledgedAt = None, resolvedAt = None\<rparr>
        in Inr (alert, d\<lparr>alerts := alerts d @ [alert], next_id := Suc (next_id d)\<rparr>))"

definition getAlertingRules :: "database \<Rightarrow> js_error + AlertingRule list" where
  "getAlertingRules d = (if SelectRules \<in> set (failing d) then Inl DbError else Inr (alertingRules d))"

text \<open>\<^verbatim>\<open>x || y\<close> on an optional string: \<^verbatim>\<open>null\<close> and the empty string are falsy.\<close>

definition truthy :: "string option \<Rightarrow> string option" where
  "truthy x = (case x of None \<Rightarrow> None | Some s \<Rightarrow> if s = [] then None else Some s)"

section \<open>The rule engine\<close>

text \<open>\<^verbatim>\<open>Array.prototype.every\<close> with a callback that can raise: it stops at the first
  false answer and at the first exception, and answers true on the empty array.\<close>

fun every :: "(jvalue \<Rightarrow> js_error + bool) \<Rightarrow> jvalue list \<Rightarrow> js_error + bool" where
  "every f [] = Inr True"
| "every f (x # xs) =
     (case f x of Inl e \<Rightarrow> Inl e | Inr b \<Rightarrow> if b then every f xs else Inr False)"

text \<open>\<^verbatim>\<open>evaluateConditions\<close>: the parsed value is used as an array without a check, so
  anything but an array raises at the call of \<^verbatim>\<open>every\<close>.\<close>

definition evaluateConditions ::
  "(string \<Rightarrow> string \<Rightarrow> bool option) \<Rightarrow> jvalue \<Rightarrow> RuleEvaluationContext \<Rightarrow> js_error + bool" where
  "evaluateConditions re conditions context =
     (case conditions of
        JArr cs \<Rightarrow> every (\<lambda>cond. evaluateCondition re cond context) cs
      | _ \<Rightarrow> Inl TypeError)"

definition context_of :: "Log \<Rightarrow> RuleEvaluationContext" where
  "context_of lg =
     \<lparr>ip = truthy (log_ipAddress lg), eventType = log_eventType lg,
      severity = log_level lg, message = log_message lg, source = log_source lg\<rparr>"

definition rule_alert :: "AlertingRule \<Rightarrow> Log \<Rightarrow> InsertAlert" where
  "rule_alert rule lg =
     \<lparr>ins_severity = rule_severity rule, ins_title = rule_name rule,
      ins_description = ''Custom rule triggered: '' @
        (case truthy (rule_description rule) of None \<Rightarrow> rule_name rule | Some t \<Rightarrow> t),
      ins_source = log_source lg, ins_ipAddress = truthy (log_ipAddress lg),
      ins_status = Some Active\<rparr>"

text \<open>The body of the \<^verbatim>\<open>try\<close> block of \<^verbatim>\<open>evaluateRulesForLog\<close>, for one rule.\<close>

definition try_rule ::
  "(string \<Rightarrow> string \<Rightarrow> bool option) \<Rightarrow> Log \<Rightarrow> AlertingRule \<Rightarrow> database \<Rightarrow> js_error + database" where
  "try_rule re lg rule d =
     (case rule_condition rule of
        None \<Rightarrow> Inl SyntaxError
      | Some conditions \<Rightarrow>
          (case evaluateConditions re conditions (context_of lg) of
             Inl e \<Rightarrow> Inl e
           | Inr b \<Rightarrow>
               if b then
                 (case createAlert (rule_alert rule lg) d of
                    Inl e \<Rightarrow> Inl e
                  | Inr (alert, d') \<Rightarrow> Inr d')
               else Inr d))"

text \<open>The \<^verbatim>\<open>for\<close> loop: the \<^verbatim>\<open>catch\<close> of each round logs the error and goes on.\<close>

fun rules_loop ::
  "(string \<Rightarrow> string \<Rightarrow> bool option) \<Rightarrow> Log \<Rightarrow> AlertingRule list \<Rightarrow> database \<Rightarrow> database" where
  "rules_loop re lg [] d = d"
| "rules_loop re lg (rule # rs) d =
     rules_loop re lg rs (case try_rule re lg rule d of Inl e \<Rightarrow> d | Inr d' \<Rightarrow> d')"

definition evaluateRulesForLog ::
  "(string \<Rightarrow> string \<Rightarrow> bool option) \<Rightarrow> Log \<Rightarrow> database \<Rightarrow> js_error + database" where
  "evaluateRulesForLog re lg d =
     (case getAlertingRules d of
        Inl e \<Rightarrow> Inl e
      | Inr rules \<Rightarrow> Inr (rules_loop re lg (filter rule_enabled rules) d))"

section \<open>The heuristic classifier\<close>

text \<open>
  The seven detectors of \<^verbatim>\<open>detectAnomalies\<close> are regular expressions built from
  literals, \<^verbatim>\<open>.*\<close> and alternation, with the flag \<^verbatim>\<open>i\<close>. A detector is a list of
  alternatives, an alternative a list of items. The letters of the patterns are ASCII, so
  folding the case of ASCII letters decides a literal. The dot skips anything but a line
  end; of the line ends only line feed and carriage return exist among 8-bit characters.
\<close>

datatype rx_item = Lit string | AnyStar

definition canon :: "char \<Rightarrow> char" where
  "canon c =
     (case map_of (zip ''abcdefghijklmnopqrstuvwxyz'' ''ABCDEFGHIJKLMNOPQRSTUVWXYZ'') c of
        None \<Rightarrow> c
      | Some u \<Rightarrow> u)"

definition line_terminator :: "char \<Rightarrow> bool" where
  "line_terminator c = (c = CHR 0x0A \<or> c = CHR 0x0D)"

fun ci_starts_with :: "string \<Rightarrow> string \<Rightarrow> bool" where
  "ci_starts_with s [] = True"
| "ci_starts_with [] (c # t) = False"
| "ci_starts_with (d # s) (c # t) = (canon d = canon c \<and> ci_starts_with s t)"

text \<open>\<open>match_seq items s\<close>: the items match some prefix of \<open>s\<close>.\<close>

fun match_seq :: "rx_item list \<Rightarrow> string \<Rightarrow> bool" where
  "match_seq [] s = True"
| "match_seq (Lit l # r) s = (ci_starts_with s l \<and> match_seq r (drop (length l) s))"
| "match_seq (AnyStar # r) [] = match_seq r []"
| "match_seq (AnyStar # r) (c # s) =
     (match_seq r (c # s) \<or> (\<not> line_terminator c \<and> match_seq (AnyStar # r) s))"

text \<open>\<^verbatim>\<open>pattern.test(s)\<close>: some alternative matches at some position of \<open>s\<close>.\<close>

fun rx_test :: "rx_item list list \<Rightarrow> string \<Rightarrow> bool" where
  "rx_test p [] = list_ex (\<lambda>alt. match_seq alt []) p"
| "rx_test p (c # s) = (list_ex (\<lambda>alt. match_seq alt (c # s)) p \<or> rx_test p s)"

definition patterns :: "(rx_item list list \<times> string) list" where
  "patterns =
     [([[Lit ''failed'', AnyStar, Lit ''login''], [Lit ''authentication'', AnyStar, Lit ''failed'']],
         ''high''),
      ([[Lit ''port'', AnyStar, Lit ''scan''], [Lit ''scanning''], [Lit ''reconnaissance'']],
         ''high''),
      ([[Lit ''ddos''], [Lit ''flood''], [Lit ''syn'', AnyStar, Lit ''attack'']],
         ''critical''),
      ([[Lit ''privilege'', AnyStar, Lit ''escalation''], [Lit ''sudo''],
        [Lit ''root'', AnyStar, Lit ''access'']],
         ''critical''),
      ([[Lit ''data'', AnyStar, Lit ''exfil''],
        [Lit ''data'', AnyStar, Lit ''transfer'', AnyStar, Lit ''unusual''],
        [Lit ''suspicious'', AnyStar, Lit ''download'']],
         ''critical''),
      ([[Lit ''sql'', AnyStar, Lit ''injection''], [Lit ''injection''], [Lit ''xss''],
        [Lit ''cross'', AnyStar, Lit ''site'']],
         ''high''),
      ([[Lit ''firewall'', AnyStar, Lit ''block''], [Lit ''blocked''], [Lit ''denied'']],
         ''medium'')]"

text \<open>The loop over the detectors, on the pair \<open>(alertTriggered, detectedSeverity)\<close>:
  it leaves at the first detector that matches the message or the event type.\<close>

fun patterns_loop ::
  "(rx_item list list \<times> string) list \<Rightarrow> Log \<Rightarrow> bool \<times> string \<Rightarrow> bool \<times> string" where
  "patterns_loop [] lg st = st"
| "patterns_loop ((pattern, sev) # ps) lg (alertTriggered, detectedSeverity) =
     (if rx_test pattern (log_message lg) \<or> rx_test pattern (log_eventType lg) then
        (True,
         if sev = ''critical'' \<or> (sev = ''high'' \<and> detectedSeverity \<noteq> ''critical'')
         then sev else detectedSeverity)
      else patterns_loop ps lg (alertTriggered, detectedSeverity))"

subsection \<open>The remote scorer\<close>

text \<open>
  \<^verbatim>\<open>analyzeLogForAnomalies\<close> of \<^verbatim>\<open>server/openai.ts\<close>. The client is absent without an
  API key. A call either raises (also when its answer is not JSON) or gives the parsed
  answer, which can be any JSON value: the code reads its fields \<^verbatim>\<open>isAnomalous\<close> and
  \<^verbatim>\<open>confidence\<close>, takes the first by its truthiness and turns the second into a number,
  and every exception on the way gives the answer of a failed analysis. The text of the
  analysis, which nothing reads, is left out. Turning a string
  into a number is the host's: \<open>num s\<close> is the number that \<^verbatim>\<open>Number(s)\<close> gives.
  The numbers are IEEE doubles in the source; only \<^verbatim>\<open>Math.min\<close>, \<^verbatim>\<open>Math.max\<close> and a
  comparison touch them, which are exact, and no double lies strictly between the double
  \<^verbatim>\<open>0.6\<close> and the real \<open>6/10\<close>.
\<close>

datatype chat_reply = Throws | Content jvalue

text \<open>The truthiness of a value that may be \<^verbatim>\<open>undefined\<close>.\<close>

definition truthy_value :: "jvalue option \<Rightarrow> bool" where
  "truthy_value v =
     (case v of
        None \<Rightarrow> False
      | Some JNull \<Rightarrow> False
      | Some (JBool b) \<Rightarrow> b
      | Some (JNum n t) \<Rightarrow> n \<noteq> NaN \<and> n \<noteq> Finite 0
      | Some (JStr s) \<Rightarrow> s \<noteq> []
      | Some (JArr xs) \<Rightarrow> True
      | Some (JObj fs) \<Rightarrow> True)"

text \<open>\<^verbatim>\<open>Number(v)\<close>, as \<^verbatim>\<open>Math.min\<close> applies it to its argument. An array goes through
  its text; an object without a \<^verbatim>\<open>toString\<close> of its own goes through
  \<^verbatim>\<open>[object Object]\<close>, which is no number.\<close>

fun to_number :: "(string \<Rightarrow> js_number) \<Rightarrow> jvalue \<Rightarrow> js_error + js_number" where
  "to_number num JNull = Inr (Finite 0)"
| "to_number num (JBool b) = Inr (Finite (if b then 1 else 0))"
| "to_number num (JNum n t) = Inr n"
| "to_number num (JStr s) = Inr (num s)"
| "to_number num (JArr xs) =
     (case js_String (JArr xs) of Inl e \<Rightarrow> Inl e | Inr s \<Rightarrow> Inr (num s))"
| "to_number num (JObj fs) =
     (if ''toString'' \<in> fst ` set fs then Inl TypeError else Inr NaN)"

text \<open>\<^verbatim>\<open>Math.min(1, x)\<close>, \<^verbatim>\<open>Math.max(0, x)\<close> and \<^verbatim>\<open>x > t\<close>.\<close>

fun js_min1 :: "js_number \<Rightarrow> js_number" where
  "js_min1 NaN = NaN"
| "js_min1 NegInfinity = NegInfinity"
| "js_min1 (Finite r) = Finite (min 1 r)"
| "js_min1 PosInfinity = Finite 1"

fun js_max0 :: "js_number \<Rightarrow> js_number" where
  "js_max0 NaN = NaN"
| "js_max0 NegInfinity = Finite 0"
| "js_max0 (Finite r) = Finite (max 0 r)"
| "js_max0 PosInfinity = PosInfinity"

fun exceeds :: "js_number \<Rightarrow> real \<Rightarrow> bool" where
  "exceeds NaN t = False"
| "exceeds NegInfinity t = False"
| "exceeds (Finite r) t = (t < r)"
| "exceeds PosInfinity t = True"

record analysis =
  isAnomalous :: bool
  confidence :: js_number

definition failed_analysis :: analysis where
  "failed_analysis = \<lparr>isAnomalous = False, confidence = Finite 0\<rparr>"

definition analyzeLogForAnomalies ::
  "(string \<Rightarrow> js_number) \<Rightarrow> (string \<Rightarrow> string \<Rightarrow> chat_reply) option \<Rightarrow> string \<Rightarrow> string \<Rightarrow>
   analysis" where
  "analyzeLogForAnomalies num openai logMessage logContext =
     (case openai of
        None \<Rightarrow> failed_analysis
      | Some client \<Rightarrow>
          (case client logMessage logContext of
             Throws \<Rightarrow> failed_analysis
           | Content result \<Rightarrow>
               (case (get_prop result ''isAnomalous'', get_prop result ''confidence'') of
                  (Inr a, Inr c) \<Rightarrow>
                    (case (case c of
                             None \<Rightarrow> Inr (Finite 0)
                           | Some v \<Rightarrow> if truthy_value c then to_number num v else Inr (Finite 0)) of
                       Inl e \<Rightarrow> failed_analysis
                     | Inr n \<Rightarrow>
                         \<lparr>isAnomalous = truthy_value a, confidence = js_max0 (js_min1 n)\<rparr>)
                | (Inl e, _) \<Rightarrow> failed_analysis
                | (_, Inl e) \<Rightarrow> failed_analysis)))"

definition scorer_context :: "Log \<Rightarrow> string" where
  "scorer_context lg =
     ''Source: '' @ log_source lg @ '', Type: '' @ log_eventType lg @ '', IP: '' @
     (case truthy (log_ipAddress lg) of None \<Rightarrow> ''N/A'' | Some a \<Rightarrow> a)"

text \<open>The second block of \<^verbatim>\<open>detectAnomalies\<close>. Beside the new pair it gives the calls
  made to the scorer, each with its two arguments.\<close>

definition ai_step ::
  "(string \<Rightarrow> js_number) \<Rightarrow> (string \<Rightarrow> string \<Rightarrow> chat_reply) option \<Rightarrow> Log \<Rightarrow> bool \<times> string \<Rightarrow>
   (string \<times> string) list \<times> (bool \<times> string)" where
  "ai_step num openai lg st =
     (if log_level lg = ''error'' \<or> log_level lg = ''critical'' then
        let aiAnalysis = analyzeLogForAnomalies num openai (log_message lg) (scorer_context lg)
        in ([(log_message lg, scorer_context lg)],
            if isAnomalous aiAnalysis \<and> exceeds (confidence aiAnalysis) 0.6
            then (True, ''critical'') else st)
      else ([], st))"

definition anomaly_alert :: "Log \<Rightarrow> string \<Rightarrow> InsertAlert" where
  "anomaly_alert lg detectedSeverity =
     \<lparr>ins_severity = detectedSeverity,
      ins_title = ''Anomaly Detected: '' @ log_eventType lg,
      ins_description = log_message lg, ins_source = log_source lg,
      ins_ipAddress = truthy (log_ipAddress lg), ins_status = Some Active\<rparr>"

text \<open>\<^verbatim>\<open>detectAnomalies\<close>: the scorer calls made, and the store afterwards or the
  error of the alert insertion.\<close>

definition detectAnomalies ::
  "(string \<Rightarrow> js_number) \<Rightarrow> (string \<Rightarrow> string \<Rightarrow> chat_reply) option \<Rightarrow> Log \<Rightarrow> database \<Rightarrow>
   (string \<times> string) list \<times> (js_error + database)" where
  "detectAnomalies num openai lg d =
     (case ai_step num openai lg (patterns_loop patterns lg (False, ''info'')) of
        (calls, (alertTriggered, detectedSeverity)) \<Rightarrow>
          (calls,
           if alertTriggered then
             (case createAlert (anomaly_alert lg detectedSeverity) d of
                Inl e \<Rightarrow> Inl e
              | Inr (alert, d') \<Rightarrow> Inr d')
           else Inr d))"

text \<open>What \<^verbatim>\<open>detectAnomalies\<close> does to the store when the detectors alone decide.\<close>

definition detectors_only :: "Log \<Rightarrow> database \<Rightarrow> js_error + database" where
  "detectors_only lg d =
     (case patterns_loop patterns lg (False, ''info'') of
        (alertTriggered, detectedSeverity) \<Rightarrow>
          if alertTriggered then
            (case createAlert (anomaly_alert lg detectedSeverity) d of
               Inl e \<Rightarrow> Inl e
             | Inr (alert, d') \<Rightarrow> Inr d')
          else Inr d)"

section \<open>The alert lifecycle\<close>

text \<open>Both updates set the status of the rows with the given id, whatever it was, and
  give back the first updated row.\<close>

definition acknowledgeAlert :: "nat \<Rightarrow> nat \<Rightarrow> database \<Rightarrow> js_error + (Alert option \<times> database)" where
  "acknowledgeAlert i now d =
     (if UpdateAlerts \<in> set (failing d) then Inl DbError
      else
        let alerts' = map (\<lambda>a. if alert_id a = i
                                then a\<lparr>alert_status := Acknowledged, acknowledgedAt := Some now\<rparr>
                                else a) (alerts d)
        in Inr (find (\<lambda>a. alert_id a = i) alerts', d\<lparr>alerts := alerts'\<rparr>))"

definition resolveAlert :: "nat \<Rightarrow> nat \<Rightarrow> database \<Rightarrow> js_error + (Alert option \<times> database)" where
  "resolveAlert i now d =
     (if UpdateAlerts \<in> set (failing d) then Inl DbError
      else
        let alerts' = map (\<lambda>a. if alert_id a = i
                                then a\<lparr>alert_status := Resolved, resolvedAt := Some now\<rparr>
                                else a) (alerts d)
        in Inr (find (\<lambda>a. alert_id a = i) alerts', d\<lparr>alerts := alerts'\<rparr>))"

text \<open>The order of the lifecycle, to state that a status moves forward.\<close>

fun status_rank :: "alert_status \<Rightarrow> nat" where
  "status_rank Active = 0"
| "status_rank Acknowledged = 1"
| "status_rank Resolved = 2"

text \<open>The two buttons of \<^verbatim>\<open>alert-card.tsx\<close>, which send the two updates: the card of
  an alert shows \<^verbatim>\<open>Acknowledge\<close> when the alert is active, and \<^verbatim>\<open>Resolve\<close> when it is
  active or acknowledged.\<close>

definition offers_acknowledge :: "Alert \<Rightarrow> bool" where
  "offers_acknowledge alert \<longleftrightarrow> alert_status alert = Active"

definition offers_resolve :: "Alert \<Rightarrow> bool" where
  "offers_resolve alert \<longleftrightarrow> alert_status alert = Active \<or> alert_status alert = Acknowledged"

section \<open>The subscriber registry\<close>

text \<open>
  \<^verbatim>\<open>LogStreamManager\<close> of \<^verbatim>\<open>server/websocket.ts\<close>. A socket is its ready state and
  the messages written to it so far. The registry is a \<^verbatim>\<open>Map\<close>, which keeps insertion
  order: an association list with distinct keys. \<open>wsServer\<close> tells whether
  \<^verbatim>\<open>initialize\<close> has run. A message carries its payload and the time of the broadcast.
\<close>

datatype readyState = CONNECTING | OPEN | CLOSING | CLOSED

datatype ws_message = log_created Log nat | alert_created Alert nat

record WebSocket =
  readyState :: readyState
  sent :: "ws_message list"

record LogStreamManager =
  wsServer :: bool
  subscribers :: "(string \<times> WebSocket) list"

text \<open>\<^verbatim>\<open>Map.set\<close> and \<^verbatim>\<open>Map.delete\<close>.\<close>

fun map_set :: "string \<Rightarrow> WebSocket \<Rightarrow> (string \<times> WebSocket) list \<Rightarrow> (string \<times> WebSocket) list" where
  "map_set k v [] = [(k, v)]"
| "map_set k v ((k', v') # m) = (if k' = k then (k, v) # m else (k', v') # map_set k v m)"

definition map_delete :: "string \<Rightarrow> (string \<times> WebSocket) list \<Rightarrow> (string \<times> WebSocket) list" where
  "map_delete k m = filter (\<lambda>(k', v). k' \<noteq> k) m"

text \<open>The three handlers that \<^verbatim>\<open>initialize\<close> installs: a new connection is
  registered under its generated id; a close and an error of a socket remove its id.\<close>

definition on_connection :: "string \<Rightarrow> WebSocket \<Rightarrow> LogStreamManager \<Rightarrow> LogStreamManager" where
  "on_connection subscriberId ws mgr = mgr\<lparr>subscribers := map_set subscriberId ws (subscribers mgr)\<rparr>"

definition on_close :: "string \<Rightarrow> LogStreamManager \<Rightarrow> LogStreamManager" where
  "on_close subscriberId mgr = mgr\<lparr>subscribers := map_delete subscriberId (subscribers mgr)\<rparr>"

definition on_error :: "string \<Rightarrow> LogStreamManager \<Rightarrow> LogStreamManager" where
  "on_error subscriberId mgr = mgr\<lparr>subscribers := map_delete subscriberId (subscribers mgr)\<rparr>"

text \<open>One round of the \<^verbatim>\<open>forEach\<close> of a broadcast.\<close>

definition send_if_open :: "ws_message \<Rightarrow> WebSocket \<Rightarrow> WebSocket" where
  "send_if_open m ws = (if readyState ws = OPEN then ws\<lparr>sent := sent ws @ [m]\<rparr> else ws)"

definition broadcastLogCreated :: "Log \<Rightarrow> nat \<Rightarrow> LogStreamManager \<Rightarrow> LogStreamManager" where
  "broadcastLogCreated lg now mgr =
     (if \<not> wsServer mgr then mgr
      else mgr\<lparr>subscribers :=
             map (\<lambda>(i, ws). (i, send_if_open (log_created lg now) ws)) (subscribers mgr)\<rparr>)"

definition broadcastAlertCreated :: "Alert \<Rightarrow> nat \<Rightarrow> LogStreamManager \<Rightarrow> LogStreamManager" where
  "broadcastAlertCreated alert now mgr =
     (if \<not> wsServer mgr then mgr
      else mgr\<lparr>subscribers :=
             map (\<lambda>(i, ws). (i, send_if_open (alert_created alert now) ws)) (subscribers mgr)\<rparr>)"

section \<open>Log ingestion\<close>

text \<open>
  The server is the store, the registry and the detection runs that wait for the scorer.
  An awaited call is a call in sequence: its effects and its error are there before the
  caller goes on. \<^verbatim>\<open>createLog\<close> calls \<^verbatim>\<open>detectAnomalies\<close> without awaiting it, and the
  call runs at once as far as it can. When it has no reply of the scorer to wait for (the
  level is below \<^verbatim>\<open>error\<close>, or there is no client), it issues the insertion of its alert
  before the handler goes on, hence before the rules are loaded; the store applies the
  queries in the order in which they are issued. When it waits for the reply of the
  scorer, the call has been made and the run joins \<open>pending\<close>: the reply comes at a time
  of its own, which no caller waits for, and \<open>resume_pending\<close> is its arrival after the
  handler has answered. An error of a run is caught and logged in either case.
\<close>

record server =
  db :: database
  manager :: LogStreamManager
  pending :: "Log list"

text \<open>A detection run to its end: \<^verbatim>\<open>detectAnomalies(log).catch(...)\<close>.\<close>

definition run_detection ::
  "(string \<Rightarrow> js_number) \<Rightarrow> (string \<Rightarrow> string \<Rightarrow> chat_reply) option \<Rightarrow> Log \<Rightarrow> database \<Rightarrow>
   database" where
  "run_detection num openai lg d =
     (case snd (detectAnomalies num openai lg d) of Inl e \<Rightarrow> d | Inr d' \<Rightarrow> d')"

definition suspends :: "(string \<Rightarrow> string \<Rightarrow> chat_reply) option \<Rightarrow> Log \<Rightarrow> bool" where
  "suspends openai lg \<longleftrightarrow>
     openai \<noteq> None \<and> (log_level lg = ''error'' \<or> log_level lg = ''critical'')"

definition createLog ::
  "(string \<Rightarrow> js_number) \<Rightarrow> (string \<Rightarrow> string \<Rightarrow> chat_reply) option \<Rightarrow> InsertLog \<Rightarrow> server \<Rightarrow>
   js_error + (Log \<times> server)" where
  "createLog num openai insertLog s =
     (case insert_log insertLog (db s) of
        Inl e \<Rightarrow> Inl e
      | Inr (lg, d') \<Rightarrow>
          Inr (lg,
               if suspends openai lg then s\<lparr>db := d', pending := pending s @ [lg]\<rparr>
               else s\<lparr>db := run_detection num openai lg d'\<rparr>))"

text \<open>The request body is either rejected by \<^verbatim>\<open>insertLogSchema.parse\<close> or gives the
  fields of the row.\<close>

datatype request_body = Invalid | Valid InsertLog

datatype response_body = LogJson Log | AlertJson Alert | ErrorJson string

datatype response = Response nat response_body

text \<open>The handler of \<^verbatim>\<open>POST /api/logs\<close>: one \<^verbatim>\<open>try\<close> around the validation, the
  insertion, the broadcast and the awaited rule evaluation; its \<^verbatim>\<open>catch\<close> answers 400.\<close>

definition post_logs ::
  "(string \<Rightarrow> string \<Rightarrow> bool option) \<Rightarrow> (string \<Rightarrow> js_number) \<Rightarrow>
   (string \<Rightarrow> string \<Rightarrow> chat_reply) option \<Rightarrow> nat \<Rightarrow> request_body \<Rightarrow> server \<Rightarrow>
   response \<times> server" where
  "post_logs re num openai now body s =
     (case body of
        Invalid \<Rightarrow> (Response 400 (ErrorJson ''Invalid log data''), s)
      | Valid validatedData \<Rightarrow>
          (case createLog num openai validatedData s of
             Inl e \<Rightarrow> (Response 400 (ErrorJson ''Invalid log data''), s)
           | Inr (lg, s1) \<Rightarrow>
               let s2 = s1\<lparr>manager := broadcastLogCreated lg now (manager s1)\<rparr>
               in (case evaluateRulesForLog re lg (db s2) of
                     Inl e \<Rightarrow> (Response 400 (ErrorJson ''Invalid log data''), s2)
                   | Inr d' \<Rightarrow> (Response 201 (LogJson lg), s2\<lparr>db := d'\<rparr>))))"

text \<open>The handler of \<^verbatim>\<open>POST /api/alerts\<close>, the one caller of
  \<^verbatim>\<open>broadcastAlertCreated\<close>.\<close>

definition post_alerts :: "nat \<Rightarrow> InsertAlert option \<Rightarrow> server \<Rightarrow> response \<times> server" where
  "post_alerts now body s =
     (case body of
        None \<Rightarrow> (Response 400 (ErrorJson ''Invalid alert data''), s)
      | Some validatedData \<Rightarrow>
          (case createAlert validatedData (db s) of
             Inl e \<Rightarrow> (Response 400 (ErrorJson ''Invalid alert data''), s)
           | Inr (alert, d') \<Rightarrow>
               (Response 201 (AlertJson alert),
                s\<lparr>db := d', manager := broadcastAlertCreated alert now (manager s)\<rparr>)))"

text \<open>The replies of the scorer arrive for the runs that wait for them.\<close>

definition resume_pending ::
  "(string \<Rightarrow> js_number) \<Rightarrow> (string \<Rightarrow> string \<Rightarrow> chat_reply) option \<Rightarrow> server \<Rightarrow> server" where
  "resume_pending num openai s =
     s\<lparr>db := fold (run_detection num openai) (pending s) (db s), pending := []\<rparr>"

subsection \<open>Hosts for concrete runs\<close>

text \<open>A host whose \<^verbatim>\<open>RegExp\<close> rejects every pattern and for which no string is a
  number, for runs that reach neither, and a scorer that gives one fixed reply.\<close>

definition no_regex :: "string \<Rightarrow> string \<Rightarrow> bool option" where
  "no_regex p s = None"

definition no_number :: "string \<Rightarrow> js_number" where
  "no_number s = NaN"

definition fixed_reply :: "chat_reply \<Rightarrow> string \<Rightarrow> string \<Rightarrow> chat_reply" where
  "fixed_reply r logMessage logContext = r"

subsection \<open>Stores that only gain active alerts\<close>

text \<open>\<open>extends d d'\<close>: the store \<open>d'\<close> is \<open>d\<close> with some alerts appended, each active
  and with a fresh id, and nothing else changed but the id counter.\<close>

definition extends :: "database \<Rightarrow> database \<Rightarrow> bool" where
  "extends d d' \<longleftrightarrow>
     failing d' = failing d \<and> alertingRules d' = alertingRules d \<and> logs d' = logs d \<and>
     next_id d \<le> next_id d' \<and>
     (\<exists>xs. alerts d' = alerts d @ xs \<and>
        list_all (\<lambda>a. alert_status a = Active \<and> next_id d \<le> alert_id a) xs)"

subsection \<open>Inputs for concrete runs\<close>

text \<open>The first seeded log as stored, a rule without conditions, and a store that holds
  that log and the given rules.\<close>

abbreviation login_log :: Log where
  "login_log \<equiv> \<lparr>log_id = 1, log_level = ''info'', log_source = ''application'',
     log_ipAddress = Some ''192.168.1.105'', log_eventType = ''user_login'',
     log_message = ''User authentication successful'', log_metadata = None\<rparr>"

abbreviation empty_rule :: AlertingRule where
  "empty_rule \<equiv> \<lparr>rule_id = 2, rule_name = ''Watch everything'', rule_description = None,
     rule_condition = Some (JArr []), rule_severity = ''low'', rule_enabled = True\<rparr>"

abbreviation store_with :: "AlertingRule list \<Rightarrow> database" where
  "store_with rs \<equiv> \<lparr>logs = [login_log], alerts = [], alertingRules = rs, next_id = 3, failing = []\<rparr>"

text \<open>The second seeded log as stored, the two seeded alerts, the store after seeding
  (without rules), and the alert that the failed login raises.\<close>

abbreviation failed_login_log :: Log where
  "failed_login_log \<equiv> \<lparr>log_id = 2, log_level = ''warning'', log_source = ''security'',
     log_ipAddress = Some ''203.0.113.42'', log_eventType = ''failed_login'',
     log_message = ''Failed login attempt detected from suspicious IP'',
     log_metadata = Some ''{\"attempts\":3}''\<rparr>"

abbreviation exfiltration_alert :: Alert where
  "exfiltration_alert \<equiv> \<lparr>alert_id = 7, alert_severity = ''high'',
     alert_title = ''Unusual Data Exfiltration'',
     alert_description = ''Large volume of data transferred to external IP address'',
     alert_source = ''network'', alert_ipAddress = Some ''198.51.100.99'',
     alert_status = Active, acknowledgedAt = None, resolvedAt = None\<rparr>"

abbreviation certificate_alert :: Alert where
  "certificate_alert \<equiv> \<lparr>alert_id = 8, alert_severity = ''low'',
     alert_title = ''Certificate Expiring Soon'',
     alert_description = ''SSL certificate for api.example.com expires in 7 days'',
     alert_source = ''system'', alert_ipAddress = None,
     alert_status = Resolved, acknowledgedAt = None, resolvedAt = None\<rparr>"

abbreviation seeded :: database where
  "seeded \<equiv> \<lparr>logs = [login_log, failed_login_log],
     alerts = [exfiltration_alert, certificate_alert], alertingRules = [], next_id = 9,
     failing = []\<rparr>"

abbreviation failed_login_alert :: Alert where
  "failed_login_alert \<equiv> \<lparr>alert_id = 9, alert_severity = ''high'',
     alert_title = ''Anomaly Detected: failed_login'',
     alert_description = ''Failed login attempt detected from suspicious IP'',
     alert_source = ''security'', alert_ipAddress = Some ''203.0.113.42'',
     alert_status = Active, acknowledgedAt = None, resolvedAt = None\<rparr>"

text \<open>A socket with nothing written to it yet, and a registry of three open
  subscribers and a closed one.\<close>

abbreviation socket :: "readyState \<Rightarrow> WebSocket" where
  "socket st \<equiv> \<lparr>readyState = st, sent = []\<rparr>"

abbreviation four_subscribers :: LogStreamManager where
  "four_subscribers \<equiv> \<lparr>wsServer = True,
     subscribers = [(''k3x9q0a1z'', socket OPEN), (''p07fh2m5c'', socket OPEN),
                    (''zz81bq4we'', socket CLOSED), (''a6r2t9y0u'', socket OPEN)]\<rparr>"

text \<open>The fourth seeded log as stored, and the alert raised for it when the scorer
  escalates.\<close>

abbreviation admin_panel_log :: Log where
  "admin_panel_log \<equiv> \<lparr>log_id = 4, log_level = ''critical'', log_source = ''security'',
     log_ipAddress = Some ''192.0.2.156'', log_eventType = ''unauthorized_access'',
     log_message = ''Unauthorized access attempt to admin panel'',
     log_metadata = None\<rparr>"

abbreviation admin_panel_alert :: Alert where
  "admin_panel_alert \<equiv> \<lparr>alert_id = 9, alert_severity = ''critical'',
     alert_title = ''Anomaly Detected: unauthorized_access'',
     alert_description = ''Unauthorized access attempt to admin panel'',
     alert_source = ''security'', alert_ipAddress = Some ''192.0.2.156'',
     alert_status = Active, acknowledgedAt = None, resolvedAt = None\<rparr>"

text \<open>A log that only the firewall detector matches and the alert raised for it; the
  example rule of the documentation; the body of a request that reports a failed login,
  the row stored for it, the alert of the classifier and the alert of the rule for it; a
  server on the seeded store with the given rules and failing queries; the registry after
  the given messages went to its open subscribers; and an answer of the scorer with the
  two fields of its contract.\<close>

abbreviation firewall_log :: Log where
  "firewall_log \<equiv> \<lparr>log_id = 5, log_level = ''warning'', log_source = ''network'',
     log_ipAddress = Some ''10.0.0.45'', log_eventType = ''firewall_block'',
     log_message = ''Connection blocked by firewall'', log_metadata = None\<rparr>"

abbreviation firewall_alert :: Alert where
  "firewall_alert \<equiv> \<lparr>alert_id = 9, alert_severity = ''info'',
     alert_title = ''Anomaly Detected: firewall_block'',
     alert_description = ''Connection blocked by firewall'',
     alert_source = ''network'', alert_ipAddress = Some ''10.0.0.45'',
     alert_status = Active, acknowledgedAt = None, resolvedAt = None\<rparr>"

abbreviation brute_force_rule :: AlertingRule where
  "brute_force_rule \<equiv> \<lparr>rule_id = 6, rule_name = ''Detect brute force'',
     rule_description = Some ''Multiple failed logins from same IP'',
     rule_condition = Some (JArr
       [JObj [(''type'', JStr ''eventType''), (''operator'', JStr ''contains''),
              (''value'', JStr ''failed_login'')],
        JObj [(''type'', JStr ''severity''), (''operator'', JStr ''equals''),
              (''value'', JStr ''warning'')]]),
     rule_severity = ''high'', rule_enabled = True\<rparr>"

abbreviation failed_login_body :: InsertLog where
  "failed_login_body \<equiv> \<lparr>new_level = ''warning'', new_source = ''security'',
     new_ipAddress = Some ''203.0.113.42'', new_eventType = ''failed_login'',
     new_message = ''Failed login attempt from 203.0.113.42'', new_metadata = None\<rparr>"

abbreviation posted_log :: Log where
  "posted_log \<equiv> \<lparr>log_id = 9, log_level = ''warning'', log_source = ''security'',
     log_ipAddress = Some ''203.0.113.42'', log_eventType = ''failed_login'',
     log_message = ''Failed login attempt from 203.0.113.42'', log_metadata = None\<rparr>"

abbreviation brute_force_alert :: Alert where
  "brute_force_alert \<equiv> \<lparr>alert_id = 11, alert_severity = ''high'',
     alert_title = ''Detect brute force'',
     alert_description = ''Custom rule triggered: Multiple failed logins from same IP'',
     alert_source = ''security'', alert_ipAddress = Some ''203.0.113.42'',
     alert_status = Active, acknowledgedAt = None, resolvedAt = None\<rparr>"

abbreviation posted_alert :: Alert where
  "posted_alert \<equiv> \<lparr>alert_id = 10, alert_severity = ''high'',
     alert_title = ''Anomaly Detected: failed_login'',
     alert_description = ''Failed login attempt from 203.0.113.42'',
     alert_source = ''security'', alert_ipAddress = Some ''203.0.113.42'',
     alert_status = Active, acknowledgedAt = None, resolvedAt = None\<rparr>"

abbreviation running :: "AlertingRule list \<Rightarrow> db_op list \<Rightarrow> server" where
  "running rs fs \<equiv> \<lparr>db = seeded\<lparr>alertingRules := rs, failing := fs\<rparr>,
     manager = four_subscribers, pending = []\<rparr>"

abbreviation open_after :: "ws_message list \<Rightarrow> WebSocket" where
  "open_after ms \<equiv> \<lparr>readyState = OPEN, sent = ms\<rparr>"

abbreviation informed :: "ws_message list \<Rightarrow> LogStreamManager" where
  "informed ms \<equiv> \<lparr>wsServer = True,
     subscribers = [(''k3x9q0a1z'', open_after ms), (''p07fh2m5c'', open_after ms),
                    (''zz81bq4we'', socket CLOSED), (''a6r2t9y0u'', open_after ms)]\<rparr>"

abbreviation scorer_answer :: "bool \<Rightarrow> real \<Rightarrow> string \<Rightarrow> chat_reply" where
  "scorer_answer b c t \<equiv>
     Content (JObj [(''isAnomalous'', JBool b), (''confidence'', JNum (Finite c) t),
                    (''analysis'', JStr ''Unauthorized access to an admin resource'')])"

text \<open>The store once the posted log is in it; two contexts and a condition with the
  three properties of its type; a rule with the given condition list; and a request that
  reports a critical event, the row stored for it, a rule that matches it and the alert
  of that rule.\<close>

abbreviation stored :: "AlertingRule list \<Rightarrow> db_op list \<Rightarrow> database" where
  "stored rs fs \<equiv> \<lparr>logs = [login_log, failed_login_log, posted_log],
     alerts = [exfiltration_alert, certificate_alert], alertingRules = rs, next_id = 10,
     failing = fs\<rparr>"

abbreviation login_context :: RuleEvaluationContext where
  "login_context \<equiv> \<lparr>ip = Some ''203.0.113.42'', eventType = ''failed_login'',
     severity = ''warning'', message = ''Failed login attempt from 203.0.113.42'',
     source = ''security''\<rparr>"

abbreviation bare_context :: RuleEvaluationContext where
  "bare_context \<equiv> \<lparr>ip = None, eventType = [], severity = ''info'',
     message = ''Service started'', source = ''web''\<rparr>"

abbreviation cond_of :: "string \<Rightarrow> string \<Rightarrow> jvalue \<Rightarrow> jvalue" where
  "cond_of t operator v \<equiv> JObj [(''type'', JStr t), (''operator'', JStr operator), (''value'', v)]"

abbreviation hostname_rule :: "jvalue list \<Rightarrow> AlertingRule" where
  "hostname_rule cs \<equiv> \<lparr>rule_id = 12, rule_name = ''Watch db1'', rule_description = None,
     rule_condition = Some (JArr cs), rule_severity = ''low'', rule_enabled = True\<rparr>"

abbreviation admin_panel_body :: InsertLog where
  "admin_panel_body \<equiv> \<lparr>new_level = ''critical'', new_source = ''security'',
     new_ipAddress = Some ''192.0.2.156'', new_eventType = ''unauthorized_access'',
     new_message = ''Unauthorized access attempt to admin panel'', new_metadata = None\<rparr>"

abbreviation admin_posted_log :: Log where
  "admin_posted_log \<equiv> \<lparr>log_id = 9, log_level = ''critical'', log_source = ''security'',
     log_ipAddress = Some ''192.0.2.156'', log_eventType = ''unauthorized_access'',
     log_message = ''Unauthorized access attempt to admin panel'', log_metadata = None\<rparr>"

abbreviation critical_rule :: AlertingRule where
  "critical_rule \<equiv> \<lparr>rule_id = 13, rule_name = ''Critical events'', rule_description = None,
     rule_condition = Some (JArr
       [JObj [(''type'', JStr ''severity''), (''operator'', JStr ''equals''),
              (''value'', JStr ''critical'')]]),
     rule_severity = ''critical'', rule_enabled = True\<rparr>"

abbreviation critical_rule_alert :: Alert where
  "critical_rule_alert \<equiv> \<lparr>alert_id = 10, alert_severity = ''critical'',
     alert_title = ''Critical events'',
     alert_description = ''Custom rule triggered: Critical events'',
     alert_source = ''security'', alert_ipAddress = Some ''192.0.2.156'',
     alert_status = Active, acknowledgedAt = None, resolvedAt = None\<rparr>"

section \<open>Properties of the condition evaluator\<close>

lemma selector_unrecognized:
  assumes "\<not> recognized field_selectors t"
  shows "t \<noteq> Some (JStr ''ip'')" "t \<noteq> Some (JStr ''eventType'')"
    "t \<noteq> Some (JStr ''severity'')" "t \<noteq> Some (JStr ''pattern'')"
    "t \<noteq> Some (JStr ''source'')"
  using assms by (auto simp: recognized_def field_selectors_def)

lemma getValue_unrecognized:
  assumes "\<not> recognized field_selectors t"
  shows "getValue t context = None"
  using selector_unrecognized [OF assms] by (simp add: getValue_def)

lemma operator_unrecognized:
  assumes "\<not> recognized operators operator"
  shows "operator \<noteq> Some (JStr ''equals'')" "operator \<noteq> Some (JStr ''contains'')"
    "operator \<noteq> Some (JStr ''matches'')" "operator \<noteq> Some (JStr ''in'')"
  using assms by (auto simp: recognized_def operators_def)

lemma evaluateCondition_unrecognized:
  assumes "cond \<noteq> JNull"
    and "\<not> recognized field_selectors (property cond ''type'') \<or>
         \<not> recognized operators (property cond ''operator'')"
  shows "evaluateCondition re cond context = Inr False"
  using assms(2)
proof
  assume "\<not> recognized field_selectors (property cond ''type'')"
  then have "getValue (property cond ''type'') context = None"
    by (rule getValue_unrecognized)
  with assms(1) show ?thesis
    by (simp add: evaluateCondition_def get_prop_def)
next
  assume "\<not> recognized operators (property cond ''operator'')"
  note ops = operator_unrecognized [OF this]
  show ?thesis
    using assms(1) ops
    by (simp add: evaluateCondition_def get_prop_def split: option.split)
qed

lemma every_not_True:
  "cond \<in> set cs \<Longrightarrow> f cond \<noteq> Inr True \<Longrightarrow> every f cs \<noteq> Inr True"
  by (induction cs) (auto split: sum.splits)

lemma evaluateCondition_null: "evaluateCondition re JNull context = Inl TypeError"
  by (simp add: evaluateCondition_def get_prop_def)

lemma evaluateCondition_equals:
  assumes "property cond ''operator'' = Some (JStr ''equals'')"
  shows "evaluateCondition re cond context =
           Inr (getValue (property cond ''type'') context \<noteq> None \<and>
                getValue (property cond ''type'') context \<noteq> Some [] \<and>
                property cond ''value'' = map_option JStr (getValue (property cond ''type'') context))"
proof -
  from assms have "cond \<noteq> JNull" by (auto simp: property_def)
  with assms show ?thesis
    by (auto simp: evaluateCondition_def get_prop_def split: option.splits)
qed

text \<open>
  C9. A condition with the operator \<^verbatim>\<open>equals\<close> never raises. It is true exactly when
  the field of the context that its selector names is there, is not the empty string, and
  the comparison value is that very string, where \<^verbatim>\<open>ip\<close> names the origin address,
  \<^verbatim>\<open>eventType\<close> the event type, \<^verbatim>\<open>severity\<close> the level, \<^verbatim>\<open>pattern\<close> the message and
  \<^verbatim>\<open>source\<close> the source. In every other case it is false: for an absent field, an empty
  field, another string, a comparison value that is no string, and a selector that names
  no field.
\<close>

theorem equals_exact:
  assumes "property cond ''operator'' = Some (JStr ''equals'')"
  shows "evaluateCondition re cond context =
           Inr (if property cond ''type'' = Some (JStr ''ip'') then
                  ip context \<noteq> None \<and> ip context \<noteq> Some [] \<and>
                  property cond ''value'' = map_option JStr (ip context)
                else if property cond ''type'' = Some (JStr ''eventType'') then
                  eventType context \<noteq> [] \<and>
                  property cond ''value'' = Some (JStr (eventType context))
                else if property cond ''type'' = Some (JStr ''severity'') then
                  severity context \<noteq> [] \<and>
                  property cond ''value'' = Some (JStr (severity context))
                else if property cond ''type'' = Some (JStr ''pattern'') then
                  message context \<noteq> [] \<and>
                  property cond ''value'' = Some (JStr (message context))
                else if property cond ''type'' = Some (JStr ''source'') then
                  source context \<noteq> [] \<and>
                  property cond ''value'' = Some (JStr (source context))
                else False)"
  unfolding evaluateCondition_equals [OF assms]
  by (simp add: getValue_def)

theorem equals_exact_witness:
  "property (cond_of ''source'' ''equals'' (JStr ''web'')) ''operator'' = Some (JStr ''equals'') \<and>
   evaluateCondition no_regex (cond_of ''ip'' ''equals'' (JStr ''203.0.113.42'')) login_context = Inr True \<and>
   evaluateCondition no_regex (cond_of ''eventType'' ''equals'' (JStr ''failed_login'')) login_context = Inr True \<and>
   evaluateCondition no_regex (cond_of ''severity'' ''equals'' (JStr ''warning'')) login_context = Inr True \<and>
   evaluateCondition no_regex (cond_of ''pattern'' ''equals'' (JStr ''Failed login attempt from 203.0.113.42'')) login_context = Inr True \<and>
   evaluateCondition no_regex (cond_of ''source'' ''equals'' (JStr ''security'')) login_context = Inr True \<and>
   evaluateCondition no_regex (cond_of ''source'' ''equals'' (JStr ''web'')) bare_context = Inr True \<and>
   evaluateCondition no_regex (cond_of ''source'' ''equals'' (JStr ''web'')) login_context = Inr False \<and>
   evaluateCondition no_regex (cond_of ''severity'' ''equals'' (JStr ''security'')) login_context = Inr False \<and>
   evaluateCondition no_regex (cond_of ''ip'' ''equals'' (JStr [])) bare_context = Inr False \<and>
   evaluateCondition no_regex (cond_of ''eventType'' ''equals'' (JStr [])) bare_context = Inr False \<and>
   evaluateCondition no_regex (cond_of ''hostname'' ''equals'' (JStr ''web'')) bare_context = Inr False"
proof -
  have op: "\<And>t v. property (cond_of t ''equals'' v) ''operator'' = Some (JStr ''equals'')"
    by (simp add: property_def)
  note e = equals_exact [OF op, of no_regex]
  show ?thesis
    using op [of "''source''" "JStr ''web''"]
      e [of "''ip''" "JStr ''203.0.113.42''" login_context]
      e [of "''eventType''" "JStr ''failed_login''" login_context]
      e [of "''severity''" "JStr ''warning''" login_context]
      e [of "''pattern''" "JStr ''Failed login attempt from 203.0.113.42''" login_context]
      e [of "''source''" "JStr ''security''" login_context]
      e [of "''source''" "JStr ''web''" bare_context]
      e [of "''source''" "JStr ''web''" login_context]
      e [of "''severity''" "JStr ''security''" login_context]
      e [of "''ip''" "JStr []" bare_context]
      e [of "''eventType''" "JStr []" bare_context]
      e [of "''hostname''" "JStr ''web''" bare_context]
    by (simp add: property_def)
qed

text \<open>
  C10, as the code has it. A condition whose \<^verbatim>\<open>type\<close> is not one of the five field
  selectors, or whose \<^verbatim>\<open>operator\<close> is not one of the four operators, evaluates to false
  without an exception unless it is \<^verbatim>\<open>null\<close>; for \<^verbatim>\<open>null\<close>, which has neither property,
  the evaluator raises a \<^verbatim>\<open>TypeError\<close>. Either way a condition list that holds it is
  never satisfied, and the rule with that list leaves the store as it is.
\<close>

theorem unrecognized_fails_closed:
  assumes "\<not> recognized field_selectors (property cond ''type'') \<or>
           \<not> recognized operators (property cond ''operator'')"
    and "cond \<in> set cs"
    and "rule_condition rule = Some (JArr cs)"
  shows "evaluateCondition re cond context = (if cond = JNull then Inl TypeError else Inr False) \<and>
         evaluateConditions re (JArr cs) context \<noteq> Inr True \<and>
         rules_loop re lg [rule] d = d"
proof -
  have c: "evaluateCondition re cond context' = (if cond = JNull then Inl TypeError else Inr False)"
    for context'
    using assms(1) by (simp add: evaluateCondition_null evaluateCondition_unrecognized)
  then have "evaluateCondition re cond context' \<noteq> Inr True" for context'
    by simp
  with assms(2) have n: "evaluateConditions re (JArr cs) context' \<noteq> Inr True" for context'
    by (simp add: evaluateConditions_def every_not_True)
  have "try_rule re lg rule d = Inr d \<or> (\<exists>e. try_rule re lg rule d = Inl e)"
  proof (cases "evaluateConditions re (JArr cs) (context_of lg)")
    case (Inl e)
    with assms(3) show ?thesis by (simp add: try_rule_def)
  next
    case (Inr b)
    with n [of "context_of lg"] have "\<not> b" by auto
    with Inr assms(3) show ?thesis by (simp add: try_rule_def)
  qed
  then have "rules_loop re lg [rule] d = d" by auto
  with c n show ?thesis by simp
qed

theorem unrecognized_fails_closed_witness:
  "\<not> recognized field_selectors (property (cond_of ''hostname'' ''equals'' (JStr ''db1'')) ''type'') \<and>
   \<not> recognized operators (property (cond_of ''source'' ''startsWith'' (JStr ''web'')) ''operator'') \<and>
   \<not> recognized field_selectors (property JNull ''type'') \<and>
   evaluateCondition no_regex (cond_of ''hostname'' ''equals'' (JStr ''db1'')) bare_context = Inr False \<and>
   evaluateCondition no_regex (cond_of ''source'' ''startsWith'' (JStr ''web'')) bare_context = Inr False \<and>
   evaluateCondition no_regex JNull bare_context = Inl TypeError \<and>
   evaluateConditions no_regex (JArr [cond_of ''hostname'' ''equals'' (JStr ''db1'')]) bare_context \<noteq> Inr True \<and>
   evaluateConditions no_regex (JArr [cond_of ''source'' ''startsWith'' (JStr ''web'')]) bare_context \<noteq> Inr True \<and>
   evaluateConditions no_regex (JArr [JNull]) bare_context \<noteq> Inr True \<and>
   rules_loop no_regex login_log [hostname_rule [cond_of ''hostname'' ''equals'' (JStr ''db1'')]] seeded = seeded \<and>
   rules_loop no_regex login_log [hostname_rule [cond_of ''source'' ''startsWith'' (JStr ''web'')]] seeded = seeded \<and>
   rules_loop no_regex login_log [hostname_rule [JNull]] seeded = seeded"
proof -
  have h1: "\<not> recognized field_selectors (property (cond_of ''hostname'' ''equals'' (JStr ''db1'')) ''type'')"
    by (simp add: property_def recognized_def field_selectors_def)
  have h2: "\<not> recognized operators (property (cond_of ''source'' ''startsWith'' (JStr ''web'')) ''operator'')"
    by (simp add: property_def recognized_def operators_def)
  have h3: "\<not> recognized field_selectors (property JNull ''type'')"
    by (simp add: property_def recognized_def)
  show ?thesis
    using h1 h2 h3
      unrecognized_fails_closed [OF disjI1 [OF h1], of "[cond_of ''hostname'' ''equals'' (JStr ''db1'')]"
        "hostname_rule [cond_of ''hostname'' ''equals'' (JStr ''db1'')]" no_regex bare_context login_log seeded]
      unrecognized_fails_closed [OF disjI2 [OF h2], of "[cond_of ''source'' ''startsWith'' (JStr ''web'')]"
        "hostname_rule [cond_of ''source'' ''startsWith'' (JStr ''web'')]" no_regex bare_context login_log seeded]
      unrecognized_fails_closed [OF disjI1 [OF h3], of "[JNull]"
        "hostname_rule [JNull]" no_regex bare_context login_log seeded]
    by simp
qed

text \<open>
  C10, as stated, fails: \<^verbatim>\<open>null\<close>, which \<^verbatim>\<open>JSON.parse\<close> gives for an element of the
  condition text \<^verbatim>\<open>[null]\<close>, has no recognized selector and no recognized operator, and
  the evaluator raises for it instead of answering false.
\<close>

theorem null_condition_counterexample:
  "\<not> recognized field_selectors (property JNull ''type'') \<and>
   \<not> recognized operators (property JNull ''operator'') \<and>
   evaluateCondition no_regex JNull (context_of login_log) = Inl TypeError"
  by (simp add: property_def recognized_def evaluateCondition_def get_prop_def)

section \<open>Properties of the rule engine\<close>

lemma createAlert_result:
  "createAlert ins d = Inr (a, d') \<Longrightarrow>
     alerts d' = alerts d @ [a] \<and> failing d' = failing d \<and> next_id d' = Suc (next_id d) \<and>
     alertingRules d' = alertingRules d \<and> logs d' = logs d \<and>
     alert_id a = next_id d \<and> alert_severity a = ins_severity ins \<and>
     alert_title a = ins_title ins \<and>
     alert_status a = (case ins_status ins of None \<Rightarrow> Active | Some s \<Rightarrow> s)"
  by (auto simp: createAlert_def Let_def split: if_splits)

lemma createAlert_accepts:
  "InsertAlerts \<notin> set (failing d) \<Longrightarrow> \<exists>a d'. createAlert ins d = Inr (a, d')"
  by (simp add: createAlert_def Let_def)

lemma extends_refl: "extends d d"
  by (simp add: extends_def)

lemma extends_trans:
  assumes "extends d1 d2" "extends d2 d3"
  shows "extends d1 d3"
proof -
  from assms(1) obtain xs where xs: "alerts d2 = alerts d1 @ xs"
    "list_all (\<lambda>a. alert_status a = Active \<and> next_id d1 \<le> alert_id a) xs"
    by (auto simp: extends_def)
  from assms(2) obtain ys where ys: "alerts d3 = alerts d2 @ ys"
    "list_all (\<lambda>a. alert_status a = Active \<and> next_id d2 \<le> alert_id a) ys"
    by (auto simp: extends_def)
  have le: "next_id d1 \<le> next_id d2" using assms(1) by (simp add: extends_def)
  have "alerts d3 = alerts d1 @ (xs @ ys)" using xs(1) ys(1) by simp
  moreover have "list_all (\<lambda>a. alert_status a = Active \<and> next_id d1 \<le> alert_id a) (xs @ ys)"
    using xs(2) ys(2) le by (auto simp: list_all_iff)
  ultimately have "\<exists>zs. alerts d3 = alerts d1 @ zs \<and>
      list_all (\<lambda>a. alert_status a = Active \<and> next_id d1 \<le> alert_id a) zs"
    by blast
  then show ?thesis
    using assms by (simp add: extends_def)
qed

lemma createAlert_extends:
  assumes "createAlert ins d = Inr (a, d')" "ins_status ins = Some Active"
  shows "extends d d'"
  using createAlert_result [OF assms(1)] assms(2) by (simp add: extends_def)

lemma try_rule_extends:
  assumes "try_rule re lg rule d = Inr d'"
  shows "extends d d'"
proof (cases "rule_condition rule")
  case None
  with assms show ?thesis by (simp add: try_rule_def)
next
  case (Some conditions)
  show ?thesis
  proof (cases "evaluateConditions re conditions (context_of lg)")
    case (Inl e)
    with Some assms show ?thesis by (simp add: try_rule_def)
  next
    case (Inr b)
    show ?thesis
    proof (cases b)
      case False
      with Some Inr assms show ?thesis by (simp add: try_rule_def extends_refl)
    next
      case True
      with Some Inr assms obtain a where "createAlert (rule_alert rule lg) d = Inr (a, d')"
        by (auto simp: try_rule_def split: sum.splits)
      then show ?thesis
        by (rule createAlert_extends) (simp add: rule_alert_def)
    qed
  qed
qed

lemma rules_loop_extends: "extends d (rules_loop re lg rs d)"
proof (induction rs arbitrary: d)
  case Nil
  show ?case by (simp add: extends_refl)
next
  case (Cons rule rs)
  show ?case
  proof (cases "try_rule re lg rule d")
    case (Inl e)
    then show ?thesis using Cons.IH [of d] by simp
  next
    case (Inr d')
    then have "extends d d'" by (rule try_rule_extends)
    moreover have "extends d' (rules_loop re lg rs d')" by (rule Cons.IH)
    ultimately show ?thesis using Inr by (simp add: extends_trans)
  qed
qed

lemma evaluateConditions_empty: "evaluateConditions re (JArr []) context = Inr True"
  by (simp add: evaluateConditions_def)

lemma try_rule_empty:
  assumes "rule_condition rule = Some (JArr [])" "InsertAlerts \<notin> set (failing d)"
  shows "\<exists>a d'. try_rule re lg rule d = Inr d' \<and> alerts d' = alerts d @ [a] \<and>
           alert_id a = next_id d \<and> alert_title a = rule_name rule \<and>
           alert_severity a = rule_severity rule \<and> alert_status a = Active"
proof -
  from createAlert_accepts [OF assms(2)] obtain a d'
    where c: "createAlert (rule_alert rule lg) d = Inr (a, d')" by blast
  from createAlert_result [OF c] have
    "alerts d' = alerts d @ [a]" "alert_id a = next_id d" "alert_title a = rule_name rule"
    "alert_severity a = rule_severity rule" "alert_status a = Active"
    by (simp_all add: rule_alert_def)
  moreover have "try_rule re lg rule d = Inr d'"
    using assms(1) c by (simp add: try_rule_def evaluateConditions_empty)
  ultimately show ?thesis by blast
qed

lemma rules_loop_empty:
  assumes "rule \<in> set rs" "rule_condition rule = Some (JArr [])"
    "InsertAlerts \<notin> set (failing d)"
  shows "\<exists>a. a \<in> set (alerts (rules_loop re lg rs d)) \<and> next_id d \<le> alert_id a \<and>
           alert_title a = rule_name rule \<and> alert_severity a = rule_severity rule \<and>
           alert_status a = Active"
  using assms
proof (induction rs arbitrary: d)
  case Nil
  then show ?case by simp
next
  case (Cons r rs)
  let ?d1 = "case try_rule re lg r d of Inl e \<Rightarrow> d | Inr d' \<Rightarrow> d'"
  have step: "extends d ?d1"
    by (cases "try_rule re lg r d") (simp_all add: extends_refl try_rule_extends)
  show ?case
  proof (cases "r = rule")
    case True
    from try_rule_empty [OF Cons.prems(2,3), of re lg] obtain a d'
      where t: "try_rule re lg rule d = Inr d'" "alerts d' = alerts d @ [a]"
        "alert_id a = next_id d" "alert_title a = rule_name rule"
        "alert_severity a = rule_severity rule" "alert_status a = Active"
      by blast
    have "extends d' (rules_loop re lg rs d')" by (rule rules_loop_extends)
    then obtain xs where "alerts (rules_loop re lg rs d') = alerts d' @ xs"
      by (auto simp: extends_def)
    with t(2) have "a \<in> set (alerts (rules_loop re lg rs d'))" by simp
    with t True show ?thesis by auto
  next
    case False
    with Cons.prems(1) have "rule \<in> set rs" by simp
    moreover have "InsertAlerts \<notin> set (failing ?d1)"
      using step Cons.prems(3) by (simp add: extends_def)
    ultimately obtain a where a: "a \<in> set (alerts (rules_loop re lg rs ?d1))"
        "next_id ?d1 \<le> alert_id a" "alert_title a = rule_name rule"
        "alert_severity a = rule_severity rule" "alert_status a = Active"
      using Cons.IH [of ?d1] Cons.prems(2) by blast
    have "next_id d \<le> next_id ?d1" using step by (simp add: extends_def)
    with a show ?thesis by auto
  qed
qed

text \<open>
  C1, as the code has it. \<^verbatim>\<open>every\<close> is true on the empty array and nothing checks
  for it: a rule whose parsed condition list is empty matches every log. When the rule is
  enabled and the store takes the queries, \<^verbatim>\<open>evaluateRulesForLog\<close> creates an active
  alert with the name and the severity of the rule.
\<close>

theorem empty_conditions_match:
  assumes "rule \<in> set (alertingRules d)" "rule_enabled rule"
    "rule_condition rule = Some (JArr [])"
    "SelectRules \<notin> set (failing d)" "InsertAlerts \<notin> set (failing d)"
  shows "evaluateConditions re (JArr []) (context_of lg) = Inr True \<and>
         (\<exists>d' a. evaluateRulesForLog re lg d = Inr d' \<and> a \<in> set (alerts d') \<and>
            next_id d \<le> alert_id a \<and> alert_title a = rule_name rule \<and>
            alert_severity a = rule_severity rule \<and> alert_status a = Active)"
proof -
  have "rule \<in> set (filter rule_enabled (alertingRules d))"
    using assms(1,2) by simp
  then obtain a where
    "a \<in> set (alerts (rules_loop re lg (filter rule_enabled (alertingRules d)) d))"
    "next_id d \<le> alert_id a" "alert_title a = rule_name rule"
    "alert_severity a = rule_severity rule" "alert_status a = Active"
    using rules_loop_empty [OF _ assms(3,5)] by blast
  moreover have "evaluateRulesForLog re lg d =
      Inr (rules_loop re lg (filter rule_enabled (alertingRules d)) d)"
    using assms(4) by (simp add: evaluateRulesForLog_def getAlertingRules_def)
  ultimately show ?thesis
    by (auto simp: evaluateConditions_empty)
qed

theorem empty_conditions_match_witness:
  "empty_rule \<in> set (alertingRules (store_with [empty_rule])) \<and> rule_enabled empty_rule \<and>
   rule_condition empty_rule = Some (JArr []) \<and>
   SelectRules \<notin> set (failing (store_with [empty_rule])) \<and>
   InsertAlerts \<notin> set (failing (store_with [empty_rule])) \<and>
   evaluateConditions no_regex (JArr []) (context_of login_log) = Inr True \<and>
   (\<exists>d' a. evaluateRulesForLog no_regex login_log (store_with [empty_rule]) = Inr d' \<and>
      a \<in> set (alerts d') \<and> next_id (store_with [empty_rule]) \<le> alert_id a \<and>
      alert_title a = rule_name empty_rule \<and> alert_severity a = rule_severity empty_rule \<and>
      alert_status a = Active)"
  using empty_conditions_match [of empty_rule "store_with [empty_rule]" no_regex login_log]
  by simp

text \<open>
  C1, as stated, fails: for the seeded login log and one enabled rule with the condition
  text \<^verbatim>\<open>[]\<close>, the condition list is found true and the alert of the rule is stored.
\<close>

theorem empty_conditions_counterexample:
  "evaluateConditions no_regex (JArr []) (context_of login_log) = Inr True \<and>
   evaluateRulesForLog no_regex login_log (store_with [empty_rule]) =
     Inr \<lparr>logs = [login_log],
          alerts = [\<lparr>alert_id = 3, alert_severity = ''low'', alert_title = ''Watch everything'',
                     alert_description = ''Custom rule triggered: Watch everything'',
                     alert_source = ''application'', alert_ipAddress = Some ''192.168.1.105'',
                     alert_status = Active, acknowledgedAt = None, resolvedAt = None\<rparr>],
          alertingRules = [empty_rule], next_id = 4, failing = []\<rparr>"
  by (simp add: evaluateConditions_def evaluateRulesForLog_def getAlertingRules_def
      try_rule_def createAlert_def rule_alert_def truthy_def Let_def)

section \<open>Properties of the alert lifecycle\<close>

lemma detectAnomalies_extends:
  assumes "snd (detectAnomalies num openai lg d) = Inr d'"
  shows "extends d d'"
proof (cases "ai_step num openai lg (patterns_loop patterns lg (False, ''info''))")
  case (fields calls alertTriggered detectedSeverity)
  show ?thesis
  proof (cases alertTriggered)
    case False
    with fields assms show ?thesis by (simp add: detectAnomalies_def extends_refl)
  next
    case True
    with fields assms obtain a
      where "createAlert (anomaly_alert lg detectedSeverity) d = Inr (a, d')"
      by (auto simp: detectAnomalies_def split: sum.splits)
    then show ?thesis
      by (rule createAlert_extends) (simp add: anomaly_alert_def)
  qed
qed

lemma run_detection_extends: "extends d (run_detection num openai lg d)"
  by (cases "snd (detectAnomalies num openai lg d)")
    (simp_all add: run_detection_def extends_refl detectAnomalies_extends)

lemma evaluateRulesForLog_extends:
  assumes "evaluateRulesForLog re lg d = Inr d'"
  shows "extends d d'"
  using assms rules_loop_extends [of d re lg "filter rule_enabled (alertingRules d)"]
  by (auto simp: evaluateRulesForLog_def getAlertingRules_def split: if_splits)

lemma evaluateRulesForLog_cases:
  "evaluateRulesForLog re lg d = Inl DbError \<or> (\<exists>d'. evaluateRulesForLog re lg d = Inr d')"
  by (simp add: evaluateRulesForLog_def getAlertingRules_def)

lemma extends_active:
  assumes "extends d d'"
  shows "\<exists>xs. alerts d' = alerts d @ xs \<and> list_all (\<lambda>a. alert_status a = Active) xs"
  using assms by (auto simp: extends_def list_all_iff)

lemma acknowledgeAlert_nth:
  assumes "acknowledgeAlert i now d = Inr (r, d')" "k < length (alerts d)"
  shows "length (alerts d') = length (alerts d)"
    and "alerts d' ! k =
           (if alert_id (alerts d ! k) = i
            then (alerts d ! k)\<lparr>alert_status := Acknowledged, acknowledgedAt := Some now\<rparr>
            else alerts d ! k)"
  using assms by (auto simp: acknowledgeAlert_def Let_def split: if_splits)

lemma resolveAlert_nth:
  assumes "resolveAlert i now d = Inr (r, d')" "k < length (alerts d)"
  shows "length (alerts d') = length (alerts d)"
    and "alerts d' ! k =
           (if alert_id (alerts d ! k) = i
            then (alerts d ! k)\<lparr>alert_status := Resolved, resolvedAt := Some now\<rparr>
            else alerts d ! k)"
  using assms by (auto simp: resolveAlert_def Let_def split: if_splits)

lemma rank_le_Resolved: "status_rank s \<le> status_rank Resolved"
  by (cases s) simp_all

text \<open>
  C6, as the code has it. Whatever the store holds, the alerts that a detection run and
  the rule engine add to it are all active. \<^verbatim>\<open>acknowledgeAlert\<close> sets the status of the
  alert with the given id to acknowledged and its \<^verbatim>\<open>acknowledgedAt\<close> to the present time,
  \<^verbatim>\<open>resolveAlert\<close> sets the status to resolved and \<^verbatim>\<open>resolvedAt\<close> to the present time,
  whatever the status was before, and both leave every other alert as it is. So the
  status rises under each update that the alert's card offers (acknowledge for an active
  alert, resolve for an active or acknowledged one), and no resolve lowers a status.
\<close>

theorem alert_lifecycle:
  "(\<exists>xs. alerts (run_detection num openai lg d) = alerts d @ xs \<and>
      list_all (\<lambda>a. alert_status a = Active) xs) \<and>
   (evaluateRulesForLog re lg d = Inl DbError \<or>
    (\<exists>d2 ys. evaluateRulesForLog re lg d = Inr d2 \<and> alerts d2 = alerts d @ ys \<and>
       list_all (\<lambda>a. alert_status a = Active) ys)) \<and>
   (k < length (alerts d) \<and> acknowledgeAlert i now d = Inr (r3, d3) \<longrightarrow>
      length (alerts d3) = length (alerts d) \<and>
      alerts d3 ! k =
        (if alert_id (alerts d ! k) = i
         then (alerts d ! k)\<lparr>alert_status := Acknowledged, acknowledgedAt := Some now\<rparr>
         else alerts d ! k) \<and>
      (alert_id (alerts d ! k) = i \<and> offers_acknowledge (alerts d ! k) \<longrightarrow>
         status_rank (alert_status (alerts d ! k)) < status_rank (alert_status (alerts d3 ! k)))) \<and>
   (k < length (alerts d) \<and> resolveAlert i now d = Inr (r4, d4) \<longrightarrow>
      length (alerts d4) = length (alerts d) \<and>
      alerts d4 ! k =
        (if alert_id (alerts d ! k) = i
         then (alerts d ! k)\<lparr>alert_status := Resolved, resolvedAt := Some now\<rparr>
         else alerts d ! k) \<and>
      status_rank (alert_status (alerts d ! k)) \<le> status_rank (alert_status (alerts d4 ! k)) \<and>
      (alert_id (alerts d ! k) = i \<and> offers_resolve (alerts d ! k) \<longrightarrow>
         status_rank (alert_status (alerts d ! k)) < status_rank (alert_status (alerts d4 ! k))))"
proof -
  have p1: "\<exists>xs. alerts (run_detection num openai lg d) = alerts d @ xs \<and>
      list_all (\<lambda>a. alert_status a = Active) xs"
    by (rule extends_active) (rule run_detection_extends)
  have p2: "evaluateRulesForLog re lg d = Inl DbError \<or>
    (\<exists>d2 ys. evaluateRulesForLog re lg d = Inr d2 \<and> alerts d2 = alerts d @ ys \<and>
       list_all (\<lambda>a. alert_status a = Active) ys)"
    using evaluateRulesForLog_cases [of re lg d]
  proof
    assume "evaluateRulesForLog re lg d = Inl DbError"
    then show ?thesis by simp
  next
    assume "\<exists>d'. evaluateRulesForLog re lg d = Inr d'"
    then obtain d2 where e: "evaluateRulesForLog re lg d = Inr d2" by blast
    from extends_active [OF evaluateRulesForLog_extends [OF e]] e show ?thesis by blast
  qed
  have p3: "length (alerts d3) = length (alerts d) \<and>
      alerts d3 ! k =
        (if alert_id (alerts d ! k) = i
         then (alerts d ! k)\<lparr>alert_status := Acknowledged, acknowledgedAt := Some now\<rparr>
         else alerts d ! k) \<and>
      (alert_id (alerts d ! k) = i \<and> offers_acknowledge (alerts d ! k) \<longrightarrow>
         status_rank (alert_status (alerts d ! k)) < status_rank (alert_status (alerts d3 ! k)))"
    if "k < length (alerts d)" "acknowledgeAlert i now d = Inr (r3, d3)"
    using acknowledgeAlert_nth [OF that(2,1)] by (simp add: offers_acknowledge_def)
  have p4: "length (alerts d4) = length (alerts d) \<and>
      alerts d4 ! k =
        (if alert_id (alerts d ! k) = i
         then (alerts d ! k)\<lparr>alert_status := Resolved, resolvedAt := Some now\<rparr>
         else alerts d ! k) \<and>
      status_rank (alert_status (alerts d ! k)) \<le> status_rank (alert_status (alerts d4 ! k)) \<and>
      (alert_id (alerts d ! k) = i \<and> offers_resolve (alerts d ! k) \<longrightarrow>
         status_rank (alert_status (alerts d ! k)) < status_rank (alert_status (alerts d4 ! k)))"
    if "k < length (alerts d)" "resolveAlert i now d = Inr (r4, d4)"
    using resolveAlert_nth [OF that(2,1)] rank_le_Resolved [of "alert_status (alerts d ! k)"]
    by (auto simp: offers_resolve_def)
  from p1 p2 p3 p4 show ?thesis by blast
qed

theorem alert_lifecycle_witness:
  "alerts (run_detection no_number None posted_log (stored [brute_force_rule] [])) =
     alerts (stored [brute_force_rule] []) @ [posted_alert] \<and>
   list_all (\<lambda>a. alert_status a = Active) [posted_alert] \<and>
   evaluateRulesForLog no_regex posted_log (stored [brute_force_rule] []) =
     Inr ((stored [brute_force_rule] [])
            \<lparr>alerts := alerts (stored [brute_force_rule] []) @ [brute_force_alert\<lparr>alert_id := 10\<rparr>],
             next_id := 11\<rparr>) \<and>
   list_all (\<lambda>a. alert_status a = Active) [brute_force_alert\<lparr>alert_id := 10\<rparr>] \<and>
   (0::nat) < length (alerts (stored [brute_force_rule] [])) \<and>
   alert_id (alerts (stored [brute_force_rule] []) ! 0) = 7 \<and>
   offers_acknowledge (alerts (stored [brute_force_rule] []) ! 0) \<and>
   offers_resolve (alerts (stored [brute_force_rule] []) ! 0) \<and>
   acknowledgeAlert 7 50 (stored [brute_force_rule] []) =
     Inr (Some (exfiltration_alert\<lparr>alert_status := Acknowledged, acknowledgedAt := Some 50\<rparr>),
          (stored [brute_force_rule] [])\<lparr>alerts :=
            [exfiltration_alert\<lparr>alert_status := Acknowledged, acknowledgedAt := Some 50\<rparr>,
             certificate_alert]\<rparr>) \<and>
   resolveAlert 7 50 (stored [brute_force_rule] []) =
     Inr (Some (exfiltration_alert\<lparr>alert_status := Resolved, resolvedAt := Some 50\<rparr>),
          (stored [brute_force_rule] [])\<lparr>alerts :=
            [exfiltration_alert\<lparr>alert_status := Resolved, resolvedAt := Some 50\<rparr>,
             certificate_alert]\<rparr>) \<and>
   status_rank (alert_status exfiltration_alert) <
     status_rank (alert_status (exfiltration_alert\<lparr>alert_status := Acknowledged, acknowledgedAt := Some 50\<rparr>)) \<and>
   status_rank (alert_status exfiltration_alert) <
     status_rank (alert_status (exfiltration_alert\<lparr>alert_status := Resolved, resolvedAt := Some 50\<rparr>))"
proof -
  have h1: "alerts (run_detection no_number None posted_log (stored [brute_force_rule] [])) =
     alerts (stored [brute_force_rule] []) @ [posted_alert]"
    by code_simp
  have h2: "evaluateRulesForLog no_regex posted_log (stored [brute_force_rule] []) =
     Inr ((stored [brute_force_rule] [])
            \<lparr>alerts := alerts (stored [brute_force_rule] []) @ [brute_force_alert\<lparr>alert_id := 10\<rparr>],
             next_id := 11\<rparr>)"
    by code_simp
  have h3: "acknowledgeAlert 7 50 (stored [brute_force_rule] []) =
     Inr (Some (exfiltration_alert\<lparr>alert_status := Acknowledged, acknowledgedAt := Some 50\<rparr>),
          (stored [brute_force_rule] [])\<lparr>alerts :=
            [exfiltration_alert\<lparr>alert_status := Acknowledged, acknowledgedAt := Some 50\<rparr>,
             certificate_alert]\<rparr>)"
    by (simp add: acknowledgeAlert_def)
  have h4: "resolveAlert 7 50 (stored [brute_force_rule] []) =
     Inr (Some (exfiltration_alert\<lparr>alert_status := Resolved, resolvedAt := Some 50\<rparr>),
          (stored [brute_force_rule] [])\<lparr>alerts :=
            [exfiltration_alert\<lparr>alert_status := Resolved, resolvedAt := Some 50\<rparr>,
             certificate_alert]\<rparr>)"
    by (simp add: resolveAlert_def)
  from alert_lifecycle [of no_number None posted_log "stored [brute_force_rule] []" no_regex 0 7 50
      "Some (exfiltration_alert\<lparr>alert_status := Acknowledged, acknowledgedAt := Some 50\<rparr>)"
      "(stored [brute_force_rule] [])\<lparr>alerts :=
            [exfiltration_alert\<lparr>alert_status := Acknowledged, acknowledgedAt := Some 50\<rparr>,
             certificate_alert]\<rparr>"
      "Some (exfiltration_alert\<lparr>alert_status := Resolved, resolvedAt := Some 50\<rparr>)"
      "(stored [brute_force_rule] [])\<lparr>alerts :=
            [exfiltration_alert\<lparr>alert_status := Resolved, resolvedAt := Some 50\<rparr>,
             certificate_alert]\<rparr>"]
    h1 h2 h3 h4
  show ?thesis
    by (simp add: offers_acknowledge_def offers_resolve_def)
qed

text \<open>
  C6, as stated, fails: acknowledging the seeded alert that is resolved sets it back to
  acknowledged.
\<close>

theorem acknowledge_resolved_counterexample:
  "acknowledgeAlert 8 50 seeded =
     Inr (Some (certificate_alert\<lparr>alert_status := Acknowledged, acknowledgedAt := Some 50\<rparr>),
          seeded\<lparr>alerts := [exfiltration_alert,
             certificate_alert\<lparr>alert_status := Acknowledged, acknowledgedAt := Some 50\<rparr>]\<rparr>) \<and>
   alert_status certificate_alert = Resolved \<and>
   status_rank Acknowledged < status_rank Resolved"
  by (simp add: acknowledgeAlert_def)

section \<open>Properties of the subscriber registry\<close>

lemma map_delete_keys: "fst ` set (map_delete k m) = fst ` set m - {k}"
  by (auto simp: map_delete_def)

text \<open>
  C7, as the code has it. Once \<^verbatim>\<open>initialize\<close> has run, a broadcast appends the message
  to every subscriber whose socket is open and leaves every other subscriber as it is; it
  keeps the registry's ids, all of them and in their order, and it has no error to hand
  to its caller. An id leaves the registry by the close or the error event of its socket.
\<close>

theorem broadcast_open_only:
  assumes "wsServer mgr" and "k < length (subscribers mgr)"
  shows "map fst (subscribers (broadcastLogCreated lg now mgr)) = map fst (subscribers mgr) \<and>
         map fst (subscribers (broadcastAlertCreated alert now mgr)) = map fst (subscribers mgr) \<and>
         snd (subscribers (broadcastLogCreated lg now mgr) ! k) =
           (if readyState (snd (subscribers mgr ! k)) = OPEN
            then (snd (subscribers mgr ! k))
                   \<lparr>sent := sent (snd (subscribers mgr ! k)) @ [log_created lg now]\<rparr>
            else snd (subscribers mgr ! k)) \<and>
         snd (subscribers (broadcastAlertCreated alert now mgr) ! k) =
           (if readyState (snd (subscribers mgr ! k)) = OPEN
            then (snd (subscribers mgr ! k))
                   \<lparr>sent := sent (snd (subscribers mgr ! k)) @ [alert_created alert now]\<rparr>
            else snd (subscribers mgr ! k)) \<and>
         fst ` set (subscribers (on_close i mgr)) = fst ` set (subscribers mgr) - {i} \<and>
         fst ` set (subscribers (on_error i mgr)) = fst ` set (subscribers mgr) - {i}"
proof -
  have keys: "map fst (subscribers (broadcastLogCreated lg now mgr)) = map fst (subscribers mgr)"
    "map fst (subscribers (broadcastAlertCreated alert now mgr)) = map fst (subscribers mgr)"
    by (auto simp: broadcastLogCreated_def broadcastAlertCreated_def)
  have "snd (subscribers (broadcastLogCreated lg now mgr) ! k) =
      send_if_open (log_created lg now) (snd (subscribers mgr ! k))"
    using assms by (simp add: broadcastLogCreated_def case_prod_beta)
  then have l: "snd (subscribers (broadcastLogCreated lg now mgr) ! k) =
           (if readyState (snd (subscribers mgr ! k)) = OPEN
            then (snd (subscribers mgr ! k))
                   \<lparr>sent := sent (snd (subscribers mgr ! k)) @ [log_created lg now]\<rparr>
            else snd (subscribers mgr ! k))"
    by (simp add: send_if_open_def)
  have "snd (subscribers (broadcastAlertCreated alert now mgr) ! k) =
      send_if_open (alert_created alert now) (snd (subscribers mgr ! k))"
    using assms by (simp add: broadcastAlertCreated_def case_prod_beta)
  then have a: "snd (subscribers (broadcastAlertCreated alert now mgr) ! k) =
           (if readyState (snd (subscribers mgr ! k)) = OPEN
            then (snd (subscribers mgr ! k))
                   \<lparr>sent := sent (snd (subscribers mgr ! k)) @ [alert_created alert now]\<rparr>
            else snd (subscribers mgr ! k))"
    by (simp add: send_if_open_def)
  have ev: "fst ` set (subscribers (on_close i mgr)) = fst ` set (subscribers mgr) - {i}"
    "fst ` set (subscribers (on_error i mgr)) = fst ` set (subscribers mgr) - {i}"
    by (simp_all add: on_close_def on_error_def map_delete_keys)
  from keys l a ev show ?thesis by blast
qed

theorem broadcast_open_only_witness:
  "wsServer four_subscribers \<and> (2::nat) < length (subscribers four_subscribers) \<and>
   map fst (subscribers (broadcastLogCreated failed_login_log 50 four_subscribers)) =
     [''k3x9q0a1z'', ''p07fh2m5c'', ''zz81bq4we'', ''a6r2t9y0u''] \<and>
   snd (subscribers (broadcastLogCreated failed_login_log 50 four_subscribers) ! 2) = socket CLOSED \<and>
   snd (subscribers (broadcastAlertCreated failed_login_alert 50 four_subscribers) ! 2) = socket CLOSED \<and>
   fst ` set (subscribers (on_close ''zz81bq4we'' four_subscribers)) =
     {''k3x9q0a1z'', ''p07fh2m5c'', ''a6r2t9y0u''}"
  using broadcast_open_only [of four_subscribers 2 failed_login_log 50 failed_login_alert "''zz81bq4we''"]
  by auto

text \<open>
  C7, as stated, fails: after a broadcast to three open subscribers and a closed one, the
  closed one has received nothing, and it is still registered.
\<close>

theorem broadcast_evicts_counterexample:
  "broadcastLogCreated failed_login_log 50 four_subscribers =
     \<lparr>wsServer = True,
      subscribers = [(''k3x9q0a1z'', \<lparr>readyState = OPEN, sent = [log_created failed_login_log 50]\<rparr>),
                     (''p07fh2m5c'', \<lparr>readyState = OPEN, sent = [log_created failed_login_log 50]\<rparr>),
                     (''zz81bq4we'', socket CLOSED),
                     (''a6r2t9y0u'', \<lparr>readyState = OPEN, sent = [log_created failed_login_log 50]\<rparr>)]\<rparr> \<and>
   readyState (socket CLOSED) \<noteq> OPEN \<and>
   ''zz81bq4we'' \<in> fst ` set (subscribers (broadcastLogCreated failed_login_log 50 four_subscribers))"
  by (simp add: broadcastLogCreated_def send_if_open_def)

section \<open>Properties of the heuristic classifier\<close>

lemma analyze_unavailable:
  "analyzeLogForAnomalies num None m c = failed_analysis"
  by (simp add: analyzeLogForAnomalies_def)

lemma analyze_throws:
  "client m c = Throws \<Longrightarrow> analyzeLogForAnomalies num (Some client) m c = failed_analysis"
  by (simp add: analyzeLogForAnomalies_def)

lemma analyze_contract:
  assumes "client m ctx = Content (JObj fs)"
    and "map_of fs ''isAnomalous'' = Some (JBool b)"
    and "map_of fs ''confidence'' = Some (JNum (Finite c) t)"
  shows "analyzeLogForAnomalies num (Some client) m ctx =
           \<lparr>isAnomalous = b, confidence = Finite (max 0 (min 1 c))\<rparr>"
  using assms
  by (cases "c = 0")
    (simp_all add: analyzeLogForAnomalies_def get_prop_def property_def truthy_value_def)

lemma analyze_coerces:
  assumes "client m ctx = Content (JObj fs)"
    and "map_of fs ''isAnomalous'' = Some (JStr ''yes'')"
    and "map_of fs ''confidence'' = Some (JStr ''0.9'')"
    and "num ''0.9'' = Finite 0.9"
  shows "analyzeLogForAnomalies num (Some client) m ctx =
           \<lparr>isAnomalous = True, confidence = Finite 0.9\<rparr>"
  using assms
  by (simp add: analyzeLogForAnomalies_def get_prop_def property_def truthy_value_def)

lemma exceeds_clamped: "exceeds (Finite (max 0 (min 1 c))) 0.6 \<longleftrightarrow> 0.6 < c"
  by auto

lemma ai_step_calls:
  "fst (ai_step num openai lg st) =
     (if log_level lg = ''error'' \<or> log_level lg = ''critical''
      then [(log_message lg, scorer_context lg)] else [])"
  by (simp add: ai_step_def Let_def)

lemma ai_step_state:
  "snd (ai_step num openai lg st) =
     (if (log_level lg = ''error'' \<or> log_level lg = ''critical'') \<and>
         isAnomalous (analyzeLogForAnomalies num openai (log_message lg) (scorer_context lg)) \<and>
         exceeds (confidence (analyzeLogForAnomalies num openai (log_message lg) (scorer_context lg))) 0.6
      then (True, ''critical'') else st)"
  by (simp add: ai_step_def Let_def)

lemma detectAnomalies_split:
  "detectAnomalies num openai lg d =
     (fst (ai_step num openai lg (patterns_loop patterns lg (False, ''info''))),
      if fst (snd (ai_step num openai lg (patterns_loop patterns lg (False, ''info''))))
      then (case createAlert (anomaly_alert lg
                (snd (snd (ai_step num openai lg (patterns_loop patterns lg (False, ''info'')))))) d of
              Inl e \<Rightarrow> Inl e
            | Inr (alert, d') \<Rightarrow> Inr d')
      else Inr d)"
  by (simp add: detectAnomalies_def split: prod.split)

lemma detectors_only_split:
  "detectors_only lg d =
     (if fst (patterns_loop patterns lg (False, ''info''))
      then (case createAlert (anomaly_alert lg (snd (patterns_loop patterns lg (False, ''info'')))) d of
              Inl e \<Rightarrow> Inl e
            | Inr (alert, d') \<Rightarrow> Inr d')
      else Inr d)"
  by (simp add: detectors_only_def split: prod.split)

lemma not_escalated:
  assumes "snd (ai_step num openai lg (patterns_loop patterns lg (False, ''info''))) =
             patterns_loop patterns lg (False, ''info'')"
  shows "snd (detectAnomalies num openai lg d) = detectors_only lg d"
  using assms by (simp add: detectAnomalies_split detectors_only_split)

lemma escalated:
  assumes "snd (ai_step num openai lg (patterns_loop patterns lg (False, ''info''))) =
             (True, ''critical'')"
    and "InsertAlerts \<notin> set (failing d)"
  shows "\<exists>a d'. snd (detectAnomalies num openai lg d) = Inr d' \<and>
           alerts d' = alerts d @ [a] \<and> alert_severity a = ''critical'' \<and>
           alert_status a = Active"
proof -
  from createAlert_accepts [OF assms(2)] obtain a d'
    where c: "createAlert (anomaly_alert lg ''critical'') d = Inr (a, d')" by blast
  from createAlert_result [OF c] have "alerts d' = alerts d @ [a]"
    "alert_severity a = ''critical''" "alert_status a = Active"
    by (simp_all add: anomaly_alert_def)
  moreover have "snd (detectAnomalies num openai lg d) = Inr d'"
    using assms(1) c by (simp add: detectAnomalies_split)
  ultimately show ?thesis by blast
qed

lemma no_client_no_escalation:
  "snd (detectAnomalies num None lg d) = detectors_only lg d"
  by (rule not_escalated) (simp add: ai_step_state analyze_unavailable failed_analysis_def)

lemma throws_no_escalation:
  assumes "client (log_message lg) (scorer_context lg) = Throws"
  shows "snd (detectAnomalies num (Some client) lg d) = detectors_only lg d"
  by (rule not_escalated)
    (simp add: ai_step_state failed_analysis_def
      analyze_throws [where client = client and m = "log_message lg" and c = "scorer_context lg", OF assms])

text \<open>
  C8. \<^verbatim>\<open>detectAnomalies\<close> calls the scorer once when the level of the log is
  \<^verbatim>\<open>error\<close> or \<^verbatim>\<open>critical\<close> and not at all otherwise. When the scorer is called and
  its answer has \<^verbatim>\<open>isAnomalous\<close> true and a \<^verbatim>\<open>confidence\<close> above 0.6, the alert that is
  stored has the severity \<^verbatim>\<open>critical\<close>, whatever the detectors found. When the answer
  is not anomalous or its confidence is 0.6 or below, and when the scorer is not called,
  the store is left as the detectors alone decide.
\<close>

theorem remote_scorer_escalation:
  assumes "client (log_message lg) (scorer_context lg) = Content (JObj fs)"
    and "map_of fs ''isAnomalous'' = Some (JBool b)"
    and "map_of fs ''confidence'' = Some (JNum (Finite c) t)"
    and "InsertAlerts \<notin> set (failing d)"
  shows "if log_level lg = ''error'' \<or> log_level lg = ''critical'' then
           fst (detectAnomalies num (Some client) lg d) = [(log_message lg, scorer_context lg)] \<and>
           (if b \<and> 0.6 < c then
              \<exists>a d'. snd (detectAnomalies num (Some client) lg d) = Inr d' \<and>
                alerts d' = alerts d @ [a] \<and> alert_severity a = ''critical'' \<and>
                alert_status a = Active
            else snd (detectAnomalies num (Some client) lg d) = detectors_only lg d)
         else
           fst (detectAnomalies num (Some client) lg d) = [] \<and>
           snd (detectAnomalies num (Some client) lg d) = detectors_only lg d"
proof -
  let ?st = "patterns_loop patterns lg (False, ''info'')"
  note ai = analyze_contract [where client = client and m = "log_message lg"
      and ctx = "scorer_context lg" and num = num, OF assms(1-3)]
  have calls: "fst (detectAnomalies num (Some client) lg d) =
      (if log_level lg = ''error'' \<or> log_level lg = ''critical''
       then [(log_message lg, scorer_context lg)] else [])"
    by (simp add: detectAnomalies_split ai_step_calls)
  show ?thesis
  proof (cases "log_level lg = ''error'' \<or> log_level lg = ''critical''")
    case False
    then have "snd (ai_step num (Some client) lg ?st) = ?st"
      by (simp add: ai_step_state)
    then have "snd (detectAnomalies num (Some client) lg d) = detectors_only lg d"
      by (rule not_escalated)
    moreover have "fst (detectAnomalies num (Some client) lg d) = []"
      using calls False by simp
    ultimately show ?thesis
      unfolding if_not_P [OF False] by blast
  next
    case level: True
    show ?thesis
    proof (cases "b \<and> 0.6 < c")
      case True
      with level have "snd (ai_step num (Some client) lg ?st) = (True, ''critical'')"
        by (simp add: ai_step_state ai exceeds_clamped)
      from escalated [OF this assms(4)] have "\<exists>a d'. snd (detectAnomalies num (Some client) lg d) = Inr d' \<and>
                alerts d' = alerts d @ [a] \<and> alert_severity a = ''critical'' \<and>
                alert_status a = Active" .
      moreover have "fst (detectAnomalies num (Some client) lg d) =
          [(log_message lg, scorer_context lg)]"
        using calls level by simp
      ultimately show ?thesis
        unfolding if_P [OF level] if_P [OF True] by blast
    next
      case False
      with level have "snd (ai_step num (Some client) lg ?st) = ?st"
        by (auto simp: ai_step_state ai exceeds_clamped)
      then have "snd (detectAnomalies num (Some client) lg d) = detectors_only lg d"
        by (rule not_escalated)
      moreover have "fst (detectAnomalies num (Some client) lg d) =
          [(log_message lg, scorer_context lg)]"
        using calls level by simp
      ultimately show ?thesis
        unfolding if_P [OF level] if_not_P [OF False] by blast
    qed
  qed
qed

theorem remote_scorer_escalation_witness:
  "fixed_reply (scorer_answer True 0.9 ''0.9'') (log_message admin_panel_log)
     (scorer_context admin_panel_log) = scorer_answer True 0.9 ''0.9'' \<and>
   InsertAlerts \<notin> set (failing seeded) \<and>
   fst (detectAnomalies no_number (Some (fixed_reply (scorer_answer True 0.9 ''0.9'')))
          admin_panel_log seeded) =
     [(''Unauthorized access attempt to admin panel'',
       ''Source: security, Type: unauthorized_access, IP: 192.0.2.156'')] \<and>
   (\<exists>a d'. snd (detectAnomalies no_number (Some (fixed_reply (scorer_answer True 0.9 ''0.9'')))
                admin_panel_log seeded) = Inr d' \<and>
      alerts d' = alerts seeded @ [a] \<and> alert_severity a = ''critical'' \<and>
      alert_status a = Active) \<and>
   snd (detectAnomalies no_number (Some (fixed_reply (scorer_answer True 0.6 ''0.6'')))
          admin_panel_log seeded) = detectors_only admin_panel_log seeded \<and>
   detectors_only admin_panel_log seeded = Inr seeded \<and>
   fst (detectAnomalies no_number (Some (fixed_reply (scorer_answer True 0.9 ''0.9'')))
          failed_login_log seeded) = [] \<and>
   snd (detectAnomalies no_number (Some (fixed_reply (scorer_answer True 0.9 ''0.9'')))
          failed_login_log seeded) = detectors_only failed_login_log seeded"
proof -
  have r: "fixed_reply (scorer_answer b c t) m ctx = scorer_answer b c t" for b c t m ctx
    by (simp add: fixed_reply_def)
  have f: "InsertAlerts \<notin> set (failing seeded)" by simp
  have p: "detectors_only admin_panel_log seeded = Inr seeded" by code_simp
  from remote_scorer_escalation [where d = seeded and num = no_number and b = True
      and fs = "[(''isAnomalous'', JBool True), (''confidence'', JNum (Finite 0.9) ''0.9''),
                 (''analysis'', JStr ''Unauthorized access to an admin resource'')]"
      and client = "fixed_reply (scorer_answer True 0.9 ''0.9'')" and c = "0.9" and t = "''0.9''"
      and lg = admin_panel_log]
    remote_scorer_escalation [where d = seeded and num = no_number and b = True
      and fs = "[(''isAnomalous'', JBool True), (''confidence'', JNum (Finite 0.6) ''0.6''),
                 (''analysis'', JStr ''Unauthorized access to an admin resource'')]"
      and client = "fixed_reply (scorer_answer True 0.6 ''0.6'')" and c = "0.6" and t = "''0.6''"
      and lg = admin_panel_log]
    remote_scorer_escalation [where d = seeded and num = no_number and b = True
      and fs = "[(''isAnomalous'', JBool True), (''confidence'', JNum (Finite 0.9) ''0.9''),
                 (''analysis'', JStr ''Unauthorized access to an admin resource'')]"
      and client = "fixed_reply (scorer_answer True 0.9 ''0.9'')" and c = "0.9" and t = "''0.9''"
      and lg = failed_login_log]
    r [of True "0.9" "''0.9''"] f p
  show ?thesis
    by (simp add: scorer_context_def truthy_def fixed_reply_def)
qed

text \<open>At the threshold: the same critical log, matched by no detector, raises no alert
  for a confidence of 0.6 and a critical one for 0.9.\<close>

lemma scorer_threshold_example:
  "snd (detectAnomalies no_number (Some (fixed_reply (scorer_answer True 0.6 ''0.6'')))
     admin_panel_log seeded) = Inr seeded \<and>
   snd (detectAnomalies no_number (Some (fixed_reply (scorer_answer True 0.9 ''0.9'')))
     admin_panel_log seeded)
     = Inr (seeded\<lparr>alerts := [exfiltration_alert, certificate_alert, admin_panel_alert],
                   next_id := 10\<rparr>)"
  by code_simp

section \<open>First match among the detectors\<close>

text \<open>The loop stops at the first detector that matches: it takes the severity of
  that detector when it is \<^verbatim>\<open>critical\<close> or \<^verbatim>\<open>high\<close>, and keeps the severity it
  started with otherwise.\<close>

lemma patterns_loop_find:
  "patterns_loop ps lg (t, s) =
     (case find (\<lambda>(p, sev). rx_test p (log_message lg) \<or> rx_test p (log_eventType lg)) ps of
        None \<Rightarrow> (t, s)
      | Some (p, sev) \<Rightarrow>
          (True, if sev = ''critical'' \<or> (sev = ''high'' \<and> s \<noteq> ''critical'') then sev else s))"
proof (induction ps)
  case Nil
  show ?case by simp
next
  case (Cons x ps)
  obtain p sev where x: "x = (p, sev)" by (cases x)
  show ?case
  proof (cases "rx_test p (log_message lg) \<or> rx_test p (log_eventType lg)")
    case True
    with x show ?thesis by simp
  next
    case False
    with x Cons.IH show ?thesis by simp
  qed
qed

text \<open>
  C5, at a log that only the seventh detector matches, the one for firewall denials with
  the severity \<^verbatim>\<open>medium\<close>: the loop stops there, the scorer is not called, and the
  alert that is stored has the severity \<^verbatim>\<open>info\<close>.
\<close>

theorem firewall_denial_severity:
  "find (\<lambda>(p, sev). rx_test p (log_message firewall_log) \<or> rx_test p (log_eventType firewall_log))
     patterns =
     Some ([[Lit ''firewall'', AnyStar, Lit ''block''], [Lit ''blocked''], [Lit ''denied'']],
           ''medium'') \<and>
   detectAnomalies no_number None firewall_log seeded =
     ([], Inr (seeded\<lparr>alerts := [exfiltration_alert, certificate_alert, firewall_alert],
                      next_id := 10\<rparr>)) \<and>
   alert_severity firewall_alert = ''info''"
  by code_simp

section \<open>Properties of log ingestion\<close>


lemma post_logs_created:
  assumes "InsertLogs \<notin> set (failing (db s))" "SelectRules \<notin> set (failing (db s))"
  shows "\<exists>lg. fst (post_logs re num openai now (Valid validatedData) s) = Response 201 (LogJson lg)"
proof -
  obtain lg d1 where i: "insert_log validatedData (db s) = Inr (lg, d1)"
    "failing d1 = failing (db s)"
    using assms(1) by (simp add: insert_log_def Let_def)
  have "failing (run_detection num openai lg d1) = failing d1"
    using run_detection_extends [of d1 num openai lg] by (simp add: extends_def)
  with i assms(2) show ?thesis
    by (simp add: post_logs_def createLog_def Let_def evaluateRulesForLog_def
        getAlertingRules_def)
qed

lemma post_logs_rule_loading:
  assumes "InsertLogs \<notin> set (failing (db s))" "SelectRules \<in> set (failing (db s))"
  shows "fst (post_logs re num openai now (Valid validatedData) s) =
           Response 400 (ErrorJson ''Invalid log data'') \<and>
         length (logs (db (snd (post_logs re num openai now (Valid validatedData) s)))) =
           Suc (length (logs (db s)))"
proof -
  obtain lg d1 where i: "insert_log validatedData (db s) = Inr (lg, d1)"
    "failing d1 = failing (db s)" "logs d1 = logs (db s) @ [lg]"
    using assms(1) by (simp add: insert_log_def Let_def)
  have "failing (run_detection num openai lg d1) = failing d1"
    "logs (run_detection num openai lg d1) = logs d1"
    using run_detection_extends [of d1 num openai lg] by (simp_all add: extends_def)
  with i assms(2) show ?thesis
    by (simp add: post_logs_def createLog_def Let_def evaluateRulesForLog_def
        getAlertingRules_def)
qed

lemma post_logs_manager:
  "manager (snd (post_logs re num openai now body s)) = manager s \<or>
   (\<exists>lg. manager (snd (post_logs re num openai now body s)) =
      broadcastLogCreated lg now (manager s))"
  by (auto simp: post_logs_def createLog_def Let_def split: request_body.splits sum.splits)

lemma post_alerts_broadcasts:
  assumes "createAlert validatedData (db s) = Inr (alert, d')"
  shows "post_alerts now (Some validatedData) s =
           (Response 201 (AlertJson alert),
            s\<lparr>db := d', manager := broadcastAlertCreated alert now (manager s)\<rparr>)"
  using assms by (simp add: post_alerts_def)

lemma resume_pending_manager: "manager (resume_pending num openai s) = manager s"
  by (simp add: resume_pending_def)

text \<open>
  C2, at a request that reports a failed login, with the brute-force rule enabled and
  three open subscribers: the classifier and the rule engine each store an active alert,
  and the subscribers have received the \<^verbatim>\<open>log_created\<close> message and nothing else.
\<close>

theorem pipeline_alerts_not_broadcast:
  "post_logs no_regex no_number None 50 (Valid failed_login_body) (running [brute_force_rule] []) =
     (Response 201 (LogJson posted_log),
      \<lparr>db = \<lparr>logs = [login_log, failed_login_log, posted_log],
              alerts = [exfiltration_alert, certificate_alert, posted_alert, brute_force_alert],
              alertingRules = [brute_force_rule], next_id = 12, failing = []\<rparr>,
        manager = informed [log_created posted_log 50], pending = []\<rparr>) \<and>
   resume_pending no_number None
     (snd (post_logs no_regex no_number None 50 (Valid failed_login_body)
             (running [brute_force_rule] []))) =
     \<lparr>db = \<lparr>logs = [login_log, failed_login_log, posted_log],
             alerts = [exfiltration_alert, certificate_alert, posted_alert, brute_force_alert],
             alertingRules = [brute_force_rule], next_id = 12, failing = []\<rparr>,
       manager = informed [log_created posted_log 50], pending = []\<rparr>"
  by code_simp

text \<open>The same for a run that waits for the scorer: once the reply has come, the
  critical alert is stored and no subscriber has heard of it.\<close>

lemma suspended_run_not_broadcast:
  "resume_pending no_number (Some (fixed_reply (scorer_answer True 0.9 ''0.9'')))
     (snd (post_logs no_regex no_number (Some (fixed_reply (scorer_answer True 0.9 ''0.9''))) 50
             (Valid admin_panel_body) (running [critical_rule] []))) =
     \<lparr>db = \<lparr>logs = [login_log, failed_login_log, admin_posted_log],
             alerts = [exfiltration_alert, certificate_alert, critical_rule_alert,
                       admin_panel_alert\<lparr>alert_id := 11\<rparr>],
             alertingRules = [critical_rule], next_id = 12, failing = []\<rparr>,
       manager = informed [log_created admin_posted_log 50], pending = []\<rparr>"
  by code_simp




text \<open>
  C4, at a valid request when the query that loads the rules fails: the log is stored
  and broadcast, the alert of the classifier is stored, and the handler answers 400 with
  \<^verbatim>\<open>Invalid log data\<close>.
\<close>

theorem rule_loading_failure_rejects:
  "post_logs no_regex no_number None 50 (Valid failed_login_body)
     (running [brute_force_rule] [SelectRules]) =
     (Response 400 (ErrorJson ''Invalid log data''),
      \<lparr>db = \<lparr>logs = [login_log, failed_login_log, posted_log],
              alerts = [exfiltration_alert, certificate_alert, posted_alert],
              alertingRules = [brute_force_rule], next_id = 11, failing = [SelectRules]\<rparr>,
        manager = informed [log_created posted_log 50], pending = []\<rparr>)"
  by code_simp

end
